theory Spec2Isabelle
  imports Main "HOL-Library.AList" "HOL-Library.Multiset" "HOL-Library.Sublist"
begin

section \<open>Python strings and integers used by pdf\_extractor.py\<close>

text \<open>
  A Python \<open>str\<close> is modelled as a \<^typ>\<open>string\<close> whose characters are the code points
  below 256; a Python \<open>int\<close> is an \<^typ>\<open>int\<close>. The functions of this section are the
  builtins the source calls (\<open>str.strip\<close>, \<open>str.lower\<close>, \<open>str.isdigit\<close>, \<open>str.split\<close>,
  \<open>in\<close> on strings, \<open>int()\<close>, \<open>str()\<close> of an integer, the format \<open>04d\<close>) and the
  \<open>suffix\<close> and \<open>stem\<close> properties of \<open>pathlib\<close>.
\<close>

definition is_ascii_digit :: "char \<Rightarrow> bool" where
  "is_ascii_digit c = (48 \<le> (of_char c :: nat) \<and> (of_char c :: nat) \<le> 57)"

definition digit_val :: "char \<Rightarrow> nat" where
  "digit_val c = of_char c - 48"

definition digit_char :: "nat \<Rightarrow> char" where
  "digit_char d = char_of (48 + d)"

text \<open>\<open>str(n)\<close> for a natural number: its decimal digits.\<close>

fun dec :: "nat \<Rightarrow> string" where
  "dec n = (if n < 10 then [digit_char n] else dec (n div 10) @ [digit_char (n mod 10)])"

declare dec.simps [simp del]

text \<open>The value of a string of decimal digits, most significant digit first.\<close>

definition val :: "string \<Rightarrow> nat" where
  "val s = foldl (\<lambda>a c. 10 * a + digit_val c) 0 s"

text \<open>\<open>str(i)\<close> for a Python integer.\<close>

definition str_int :: "int \<Rightarrow> string" where
  "str_int i = (if i < 0 then CHR ''-'' # dec (nat (- i)) else dec (nat i))"

definition zfill :: "nat \<Rightarrow> string \<Rightarrow> string" where
  "zfill w s = replicate (w - length s) (CHR ''0'') @ s"

text \<open>
  The format \<open>f"{i:04d}"\<close>: zero padding to width 4, the sign counted in the width
  (\<open>5\<close> gives \<open>0005\<close>, \<open>-5\<close> gives \<open>-005\<close>, \<open>12345\<close> gives \<open>12345\<close>).
\<close>

definition fmt04 :: "int \<Rightarrow> string" where
  "fmt04 i = (if i < 0 then CHR ''-'' # zfill 3 (dec (nat (- i))) else zfill 4 (dec (nat i)))"

text \<open>
  Whitespace removed by \<open>str.strip()\<close>: the code points 9 to 13, 28 to 32, 0x85 and 0xA0.
\<close>

definition is_space :: "char \<Rightarrow> bool" where
  "is_space c = (let n = (of_char c :: nat) in
     (9 \<le> n \<and> n \<le> 13) \<or> (28 \<le> n \<and> n \<le> 32) \<or> n = 133 \<or> n = 160)"

definition py_strip :: "string \<Rightarrow> string" where
  "py_strip s = rev (dropWhile is_space (rev (dropWhile is_space s)))"

text \<open>\<open>str.lower()\<close> on code points below 256.\<close>

definition lower_char :: "char \<Rightarrow> char" where
  "lower_char c = (let n = (of_char c :: nat) in
     if (65 \<le> n \<and> n \<le> 90) \<or> (192 \<le> n \<and> n \<le> 222 \<and> n \<noteq> 215) then char_of (n + 32) else c)"

definition py_lower :: "string \<Rightarrow> string" where
  "py_lower s = map lower_char s"

text \<open>
  \<open>str.isdigit()\<close>: non-empty, every character a digit. Below 256 the digits are
  \<open>0\<close> to \<open>9\<close> and the superscripts two, three and one (0xB2, 0xB3, 0xB9), which
  \<open>int()\<close> does not accept.
\<close>

definition is_digit_char :: "char \<Rightarrow> bool" where
  "is_digit_char c = (is_ascii_digit c \<or> (of_char c :: nat) \<in> {178, 179, 185})"

definition str_isdigit :: "string \<Rightarrow> bool" where
  "str_isdigit s = (s \<noteq> [] \<and> list_all is_digit_char s)"

text \<open>\<open>sub in s\<close> on strings.\<close>

fun str_contains :: "string \<Rightarrow> string \<Rightarrow> bool" where
  "str_contains sub [] = (sub = [])"
| "str_contains sub (c # cs) = (prefix sub (c # cs) \<or> str_contains sub cs)"

text \<open>\<open>s.split(sep)\<close> for a one-character separator.\<close>

fun py_split :: "char \<Rightarrow> string \<Rightarrow> string list" where
  "py_split sep [] = [[]]"
| "py_split sep (c # cs) =
     (if c = sep then [] # py_split sep cs
      else (case py_split sep cs of [] \<Rightarrow> [[c]] | p # ps \<Rightarrow> (c # p) # ps))"

text \<open>
  \<open>int(s)\<close> in base 10: surrounding whitespace is dropped (9 to 13, 32, and 0x85, 0xA0,
  which are first turned into spaces), then an optional sign, then decimal digits that
  single underscores may separate. \<open>None\<close> is the \<open>ValueError\<close>.
\<close>

definition is_int_space :: "char \<Rightarrow> bool" where
  "is_int_space c = (let n = (of_char c :: nat) in
     (9 \<le> n \<and> n \<le> 13) \<or> n = 32 \<or> n = 133 \<or> n = 160)"

fun digit_groups :: "string \<Rightarrow> bool" where
  "digit_groups [] = False"
| "digit_groups [c] = is_ascii_digit c"
| "digit_groups (c # d # cs) =
     (is_ascii_digit c \<and> (if d = CHR ''_'' then digit_groups cs else digit_groups (d # cs)))"

definition py_nat :: "string \<Rightarrow> nat option" where
  "py_nat s = (if digit_groups s then Some (val (filter (\<lambda>c. c \<noteq> CHR ''_'') s)) else None)"

definition py_int :: "string \<Rightarrow> int option" where
  "py_int s =
     (case rev (dropWhile is_int_space (rev (dropWhile is_int_space s))) of
        [] \<Rightarrow> None
      | c # cs \<Rightarrow>
          if c = CHR ''-'' then map_option (\<lambda>n. - int n) (py_nat cs)
          else if c = CHR ''+'' then map_option int (py_nat cs)
          else map_option int (py_nat (c # cs)))"

text \<open>
  \<open>PurePath.suffix\<close> and \<open>PurePath.stem\<close> of a file name: with \<open>i\<close> the position of
  the last dot, the name is cut at \<open>i\<close> when \<open>0 < i < len(name) - 1\<close>; otherwise the
  suffix is empty and the stem is the whole name.
\<close>

definition has_suffix :: "string \<Rightarrow> bool" where
  "has_suffix name = (let e = takeWhile (\<lambda>c. c \<noteq> CHR ''.'') (rev name) in
     CHR ''.'' \<in> set name \<and> e \<noteq> [] \<and> length e + 1 < length name)"

definition path_suffix :: "string \<Rightarrow> string" where
  "path_suffix name = (let e = takeWhile (\<lambda>c. c \<noteq> CHR ''.'') (rev name) in
     if has_suffix name then CHR ''.'' # rev e else [])"

definition path_stem :: "string \<Rightarrow> string" where
  "path_stem name = (let e = takeWhile (\<lambda>c. c \<noteq> CHR ''.'') (rev name) in
     if has_suffix name then take (length name - length e - 1) name else name)"


section \<open>The output store, the engines and the page task\<close>

text \<open>
  A directory is an association list from file names to file contents, in listing order.
  A file holds the characters stored in it. The system is a POSIX one: writing in text
  mode stores the characters written as they are, and reading in text mode translates
  line ends (\<open>read_text\<close> below). Reading a file that exists and writing into a
  directory that exists succeed (permissions, disk space and decoding errors are not
  modelled).
\<close>

type_synonym dir = "(string \<times> string) list"

definition file_exists :: "dir \<Rightarrow> string \<Rightarrow> bool" where
  "file_exists d name = (map_of d name \<noteq> None)"

definition write_file :: "dir \<Rightarrow> string \<Rightarrow> string \<Rightarrow> dir" where
  "write_file d name content = AList.update name content d"

text \<open>
  An exception \<open>e\<close> is known by \<open>type(e).__name__\<close> and \<open>str(e)\<close>.
\<close>

datatype py_error = PyError (kind: string) (detail: string)

datatype matrix = Matrix int

text \<open>
  The external collaborators. \<open>render_page\<close> stands for \<open>fitz.open\<close>, \<open>load_page\<close>,
  \<open>get_pixmap\<close> and \<open>pix.save\<close> (lines 66 to 71): \<open>Inl e\<close> is an exception raised before
  the image file is written, \<open>Inr png\<close> the bytes of the file that was written.
  \<open>image_to_string\<close> is the OCR engine applied to that file with the language set.
  \<open>tesseract_found\<close> tells whether \<open>get_tesseract_version\<close> succeeds for the configured
  path, \<open>pdf_exists\<close> and \<open>page_count\<close> are the checks of lines 324 and 336 to 337.
\<close>

record env =
  pdf_exists :: "string \<Rightarrow> bool"
  page_count :: "string \<Rightarrow> py_error + int"
  tesseract_found :: "string \<Rightarrow> bool"
  render_page :: "string \<Rightarrow> int \<Rightarrow> matrix \<Rightarrow> py_error + string"
  image_to_string :: "string \<Rightarrow> string \<Rightarrow> py_error + string"

text \<open>Every call of an engine is logged with its 0-based page number.\<close>

datatype engine_call = RenderCall int | OcrCall int

text \<open>
  The state a page task works on: the two artifact collections (which exist, as line 52
  assumes), the combined artifact if there is one, and the log of engine calls.
\<close>

record world =
  png_images :: dir
  text_files :: dir
  combined_output :: "string option"
  engine_calls :: "engine_call list"

text \<open>
  What \<open>future.result()\<close> gives: the returned triple, or an exception raised by the task.
\<close>

datatype outcome = Returned bool int "string option" | Raised py_error

definition FAILURE_SENTINEL :: string where
  "FAILURE_SENTINEL = ''OCR FAILED FOR THIS PAGE: ''"

text \<open>The \<open>except Exception as e\<close> block of \<open>process_page_task\<close> (lines 82 to 88).\<close>

definition on_exception :: "py_error \<Rightarrow> int \<Rightarrow> string \<Rightarrow> world \<Rightarrow> world \<times> outcome" where
  "on_exception e page_index txt_filepath w =
     (let error_msg = ''OCR failed: '' @ kind e @ '': '' @ detail e
      in (w\<lparr>text_files := write_file (text_files w) txt_filepath (FAILURE_SENTINEL @ error_msg)\<rparr>,
          Returned False page_index (Some error_msg)))"

definition process_page_task ::
  "env \<Rightarrow> string \<Rightarrow> int \<Rightarrow> matrix \<Rightarrow> string \<Rightarrow> world \<Rightarrow> world \<times> outcome" where
  "process_page_task E pdf_path page_num mat languages w =
     (let page_index = page_num + 1;
          png_filepath = fmt04 page_index @ ''.png'';
          txt_filepath = fmt04 page_index @ ''.txt''
      in if file_exists (png_images w) png_filepath \<and> file_exists (text_files w) txt_filepath
         then (w, Returned True page_index None)
         else
           (let w1 = w\<lparr>engine_calls := engine_calls w @ [RenderCall page_num]\<rparr>
            in case render_page E pdf_path page_num mat of
                 Inl e \<Rightarrow> on_exception e page_index txt_filepath w1
               | Inr pix \<Rightarrow>
                   (let w2 = w1\<lparr>png_images := write_file (png_images w1) png_filepath pix,
                                engine_calls := engine_calls w1 @ [OcrCall page_num]\<rparr>
                    in case image_to_string E pix languages of
                         Inl e \<Rightarrow> on_exception e page_index txt_filepath w2
                       | Inr text \<Rightarrow>
                           (w2\<lparr>text_files := write_file (text_files w2) txt_filepath (py_strip text)\<rparr>,
                            Returned True page_index None))))"

section \<open>The progress scanner\<close>

text \<open>
  The output directory as the scanner finds it: either collection may be absent.
\<close>

record outdir =
  png_dir :: "dir option"
  txt_dir :: "dir option"
  master_file :: "string option"

definition value_error :: "string \<Rightarrow> py_error" where
  "value_error s =
     PyError ''ValueError'' (''invalid literal for int() with base 10: '' @ [CHR 0x27] @ s @ [CHR 0x27])"

text \<open>
  The loop of lines 109 to 116 collects \<open>int(stem)\<close> for the entries it accepts; an
  \<open>int()\<close> that raises ends the scan with that exception.
\<close>

fun scan_entries :: "dir \<Rightarrow> string list \<Rightarrow> py_error + int list" where
  "scan_entries t [] = Inr []"
| "scan_entries t (f # fs) =
     (if path_suffix f = ''.png'' \<and> str_isdigit (path_stem f)
         \<and> file_exists t (path_stem f @ ''.txt'')
      then (case py_int (path_stem f) of
              None \<Rightarrow> Inl (value_error (path_stem f))
            | Some n \<Rightarrow> (case scan_entries t fs of Inl e \<Rightarrow> Inl e | Inr ns \<Rightarrow> Inr (n # ns)))
      else scan_entries t fs)"

definition get_last_processed_page :: "outdir \<Rightarrow> py_error + int" where
  "get_last_processed_page od =
     (case png_dir od of
        None \<Rightarrow> Inr 0
      | Some p \<Rightarrow>
          (case txt_dir od of
             None \<Rightarrow> Inr 0
           | Some t \<Rightarrow>
               (case scan_entries t (map fst p) of
                  Inl e \<Rightarrow> Inl e
                | Inr processed_pages \<Rightarrow>
                    if processed_pages = [] then Inr 0 else Inr (Max (set processed_pages)))))"

section \<open>The combiner\<close>

definition page_header :: "int \<Rightarrow> string" where
  "page_header n =
     ''\<newline>\<newline>==================== PAGE '' @ str_int n @ '' ====================\<newline>\<newline>''"

text \<open>
  What \<open>read()\<close> returns for a file opened in text mode with the default
  \<open>newline=None\<close> (lines 141 and 156): a carriage return followed by a line feed, and a
  carriage return alone, are each read as one line feed.
\<close>

fun read_text :: "string \<Rightarrow> string" where
  "read_text [] = []"
| "read_text [c] = [if c = CHR 0x0D then CHR 0x0A else c]"
| "read_text (c # d # cs) =
     (if c = CHR 0x0D
      then (if d = CHR 0x0A then CHR 0x0A # read_text cs else CHR 0x0A # read_text (d # cs))
      else c # read_text (d # cs))"

text \<open>
  The test of lines 139 to 144 on one file of the range; \<open>f.read(50)\<close> is the first 50
  characters of the text as read.
\<close>

definition qualifies :: "dir \<Rightarrow> string \<Rightarrow> bool" where
  "qualifies t filename =
     (case map_of t filename of
        None \<Rightarrow> False
      | Some content \<Rightarrow> \<not> str_contains ''OCR FAILED'' (take 50 (read_text content)))"

text \<open>
  The writing loop of lines 154 to 157, with the text written so far. An exception
  (\<open>int()\<close> on the stem, or opening the page file) leaves what was written and is
  reported by the handler of line 160.
\<close>

fun write_sections :: "dir \<Rightarrow> string list \<Rightarrow> string \<Rightarrow> string \<times> py_error option" where
  "write_sections t [] out = (out, None)"
| "write_sections t (f # fs) out =
     (case py_int (path_stem f) of
        None \<Rightarrow> (out, Some (value_error (path_stem f)))
      | Some n \<Rightarrow>
          (case map_of t f of
             None \<Rightarrow> (out @ page_header n, Some (PyError ''FileNotFoundError'' f))
           | Some content \<Rightarrow> write_sections t fs (out @ page_header n @ read_text content)))"

text \<open>
  \<open>combine_text_files\<close> returns nothing; what it tells its caller are the lines it
  prints, returned here with the new state.
\<close>

definition combine_text_files :: "world \<Rightarrow> int \<Rightarrow> int \<Rightarrow> world \<times> string list" where
  "combine_text_files w start_page end_page =
     (let banner = ''\<newline>--- Combining Text Output (Pages '' @ str_int start_page @ ''-''
                     @ str_int end_page @ '') ---'';
          sorted_files = filter (qualifies (text_files w))
                           (map (\<lambda>page_index. fmt04 page_index @ ''.txt'') [start_page..end_page])
      in if sorted_files = []
         then (w, [banner, ''No successful text files found to combine in this range.''])
         else (case write_sections (text_files w) sorted_files [] of
                 (out, None) \<Rightarrow>
                   (w\<lparr>combined_output := Some out\<rparr>,
                    [banner, ''Successfully merged '' @ dec (length sorted_files)
                               @ '' pages into: combined_output.txt''])
               | (out, Some e) \<Rightarrow>
                   (w\<lparr>combined_output := Some out\<rparr>,
                    [banner, ''ERROR combining files: '' @ detail e])))"


section \<open>The run: coordinator, aggregator and command line\<close>

record config =
  pdf_path :: string
  output_dir :: string
  dpi :: int
  languages :: string
  tesseract_path :: string
  start_page :: int
  end_page :: int

text \<open>
  The worker pool runs one task per page; each task touches only the files of its own
  page, so a run is the tasks one after the other in the order in which they complete.
\<close>

fun run_tasks ::
  "env \<Rightarrow> string \<Rightarrow> matrix \<Rightarrow> string \<Rightarrow> int list \<Rightarrow> world \<Rightarrow> world \<times> outcome list" where
  "run_tasks E path mat langs [] w = (w, [])"
| "run_tasks E path mat langs (page_num # rest) w =
     (case process_page_task E path page_num mat langs w of
        (w1, r) \<Rightarrow> (case run_tasks E path mat langs rest w1 of (w2, rs) \<Rightarrow> (w2, r # rs)))"

text \<open>
  The body of the \<open>as_completed\<close> loop (lines 234 to 249) on one result, with the
  counters and the failure messages.
\<close>

definition collect :: "nat \<times> nat \<times> string list \<Rightarrow> outcome \<Rightarrow> nat \<times> nat \<times> string list" where
  "collect acc r =
     (case acc of (success_count, failure_count, failure_messages) \<Rightarrow>
        (case r of
           Returned success page_index error_msg \<Rightarrow>
             if success
             then (if error_msg = None then (success_count + 1, failure_count, failure_messages)
                   else (success_count, failure_count, failure_messages))
             else (success_count, failure_count + 1,
                   failure_messages @
                     [''Page '' @ fmt04 page_index @ '': ''
                        @ (case error_msg of None \<Rightarrow> ''None'' | Some m \<Rightarrow> m)])
         | Raised e \<Rightarrow> (success_count, failure_count + 1, failure_messages)))"

definition tally :: "outcome list \<Rightarrow> nat \<times> nat \<times> string list" where
  "tally rs = foldl collect (0, 0, []) rs"

text \<open>\<open>mkdir(parents=True, exist_ok=True)\<close> on both collections (lines 184 and 185).\<close>

definition mkdirs :: "outdir \<Rightarrow> engine_call list \<Rightarrow> world" where
  "mkdirs od calls =
     \<lparr>png_images = (case png_dir od of None \<Rightarrow> [] | Some d \<Rightarrow> d),
      text_files = (case txt_dir od of None \<Rightarrow> [] | Some d \<Rightarrow> d),
      combined_output = master_file od,
      engine_calls = calls\<rparr>"

text \<open>The output directory as a later invocation finds it.\<close>

definition on_disk :: "world \<Rightarrow> outdir" where
  "on_disk w = \<lparr>png_dir = Some (png_images w), txt_dir = Some (text_files w),
                master_file = combined_output w\<rparr>"

text \<open>
  What a run leaves and reports: the final state, the two counters and the failure
  messages of the report, the lines of the combiner, and the results in the order in
  which they were collected. The other lines that \<open>process_pdf\<close> prints (the settings,
  the progress lines, the elapsed time) are not modelled.
\<close>

record run_result =
  final :: world
  success_count :: nat
  failure_count :: nat
  failure_messages :: "string list"
  combiner_lines :: "string list"
  collected :: "outcome list"

text \<open>
  \<open>process_pdf\<close>. The parameter \<open>completion\<close> gives the order in which the submitted
  tasks complete; the executor completes every submitted task once, so it is a
  permutation of the pages submitted.
\<close>

definition process_pdf ::
  "env \<Rightarrow> (int list \<Rightarrow> int list) \<Rightarrow> config \<Rightarrow> outdir \<Rightarrow> engine_call list \<Rightarrow> run_result" where
  "process_pdf E completion cfg od calls =
     (let w0 = mkdirs od calls
      in if \<not> tesseract_found E (tesseract_path cfg)
         then \<lparr>final = w0, success_count = 0, failure_count = 0, failure_messages = [],
               combiner_lines = [], collected = []\<rparr>
         else
           (let mat = Matrix (dpi cfg);
                pages_to_process_indices = [start_page cfg - 1 .. end_page cfg - 1]
            in case run_tasks E (pdf_path cfg) mat (languages cfg)
                      (completion pages_to_process_indices) w0 of
                 (w1, results) \<Rightarrow>
                   (case tally results of
                      (sc, fc, msgs) \<Rightarrow>
                        if sc > 0
                        then (case combine_text_files w1 (start_page cfg) (end_page cfg) of
                                (w2, lines) \<Rightarrow>
                                  \<lparr>final = w2, success_count = sc, failure_count = fc,
                                   failure_messages = msgs, combiner_lines = lines,
                                   collected = results\<rparr>)
                        else \<lparr>final = w1, success_count = sc, failure_count = fc,
                              failure_messages = msgs, combiner_lines = [],
                              collected = results\<rparr>)))"

text \<open>
  The interactive loop of lines 355 to 411 on the lines typed by the user: it ends with
  an exit code or with the selected range. Running out of input is the \<open>EOFError\<close> of
  \<open>input()\<close>, which the handler of line 409 turns into exit code 1.
\<close>

datatype selection = Quit int | Selected int int

definition parse_range :: "int \<Rightarrow> string \<Rightarrow> (int \<times> int) option" where
  "parse_range total_pages range_input =
     (case py_split (CHR ''-'') range_input of
        [start_str, end_str] \<Rightarrow>
          (case py_int start_str of
             None \<Rightarrow> None
           | Some s \<Rightarrow>
               (case py_int end_str of
                  None \<Rightarrow> None
                | Some e \<Rightarrow> if 1 \<le> s \<and> s \<le> e \<and> e \<le> total_pages then Some (s, e) else None))
      | _ \<Rightarrow> None)"

fun select_range :: "int \<Rightarrow> int \<Rightarrow> string list \<Rightarrow> selection" where
  "select_range last_page total_pages [] = Quit 1"
| "select_range last_page total_pages (line # rest) =
     (let mode = py_lower (py_strip line)
      in if mode = ''q'' then Quit 0
         else if mode = ''r'' then
           (if last_page > 0
            then (if last_page + 1 > total_pages then Quit 0
                  else Selected (last_page + 1) total_pages)
            else select_range last_page total_pages rest)
         else if mode = ''a'' then Selected 1 total_pages
         else if mode = ''n'' \<or> (CHR ''-'' \<in> set mode \<and> mode \<noteq> ''r'') then
           (if mode = ''n''
            then (case rest of
                    [] \<Rightarrow> Quit 1
                  | line2 # rest2 \<Rightarrow>
                      (case parse_range total_pages (py_strip line2) of
                         Some (s, e) \<Rightarrow> Selected s e
                       | None \<Rightarrow> select_range last_page total_pages rest2))
            else (case parse_range total_pages mode of
                    Some (s, e) \<Rightarrow> Selected s e
                  | None \<Rightarrow> select_range last_page total_pages rest))
         else select_range last_page total_pages rest)"

record args =
  arg_pdf_path :: string
  arg_output_dir :: string
  arg_dpi :: int
  arg_lang :: string
  arg_tesseract_path :: string

text \<open>
  \<open>setup_and_run\<close> after \<open>parse_args\<close>: the exit code of the process and, when
  \<open>process_pdf\<close> was reached, what it did. An exception nobody catches (the \<open>int()\<close> of
  the scanner) ends the process with code 1.
\<close>

definition setup_and_run ::
  "env \<Rightarrow> (int list \<Rightarrow> int list) \<Rightarrow> args \<Rightarrow> string list \<Rightarrow> outdir \<Rightarrow> engine_call list
     \<Rightarrow> int \<times> run_result option" where
  "setup_and_run E completion a typed od calls =
     (if \<not> pdf_exists E (arg_pdf_path a) then (1, None)
      else (case page_count E (arg_pdf_path a) of
              Inl e \<Rightarrow> (1, None)
            | Inr total_pages \<Rightarrow>
                (case get_last_processed_page od of
                   Inl e \<Rightarrow> (1, None)
                 | Inr last_page \<Rightarrow>
                     (case select_range last_page total_pages typed of
                        Quit code \<Rightarrow> (code, None)
                      | Selected s e \<Rightarrow>
                          (0, Some (process_pdf E completion
                                     \<lparr>pdf_path = arg_pdf_path a, output_dir = arg_output_dir a,
                                      dpi = arg_dpi a, languages = arg_lang a,
                                      tesseract_path = arg_tesseract_path a,
                                      start_page = s, end_page = e\<rparr> od calls))))))"

section \<open>Observations on the store and on a run\<close>

text \<open>
  The artifacts of the page with 1-based index \<open>i\<close>: the files \<open>png_images/%04d.png\<close> and
  \<open>text_files/%04d.txt\<close>.
\<close>

definition render_artifact :: "world \<Rightarrow> int \<Rightarrow> string option" where
  "render_artifact w i = map_of (png_images w) (fmt04 i @ ''.png'')"

definition text_artifact :: "world \<Rightarrow> int \<Rightarrow> string option" where
  "text_artifact w i = map_of (text_files w) (fmt04 i @ ''.txt'')"

text \<open>
  The two kinds of text artifact of a page: one that begins with the failure sentinel, and
  one that does not.
\<close>

definition sentinel_text_artifact :: "world \<Rightarrow> int \<Rightarrow> bool" where
  "sentinel_text_artifact w i =
     (case text_artifact w i of None \<Rightarrow> False | Some content \<Rightarrow> prefix FAILURE_SENTINEL content)"

definition real_text_artifact :: "world \<Rightarrow> int \<Rightarrow> bool" where
  "real_text_artifact w i =
     (case text_artifact w i of None \<Rightarrow> False | Some content \<Rightarrow> \<not> prefix FAILURE_SENTINEL content)"

text \<open>Whether a collected result is a success, and the page index it carries.\<close>

definition succeeded :: "outcome \<Rightarrow> bool" where
  "succeeded r = (case r of Returned ok i msg \<Rightarrow> ok | Raised e \<Rightarrow> False)"

definition page_of :: "outcome \<Rightarrow> int" where
  "page_of r = (case r of Returned ok i msg \<Rightarrow> i | Raised e \<Rightarrow> 0)"

text \<open>The pages of a range that the combiner accepts, in the order in which it visits them.\<close>

definition merged_pages :: "world \<Rightarrow> int \<Rightarrow> int \<Rightarrow> int list" where
  "merged_pages w s e =
     filter (\<lambda>i. qualifies (text_files w) (fmt04 i @ ''.txt'')) [s..e]"

text \<open>
  The addressing scheme of the store on the render collection: an entry named by digits
  with the suffix \<open>.png\<close> is named by the zero-padded index it stands for.
\<close>

definition zero_padded_names :: "dir \<Rightarrow> bool" where
  "zero_padded_names p =
     list_all (\<lambda>f. path_suffix f = ''.png'' \<and> str_isdigit (path_stem f)
                   \<longrightarrow> path_stem f = fmt04 (int (val (path_stem f))))
       (map fst p)"

text \<open>
  A completion order for a configuration: a permutation of the pages it submits.
\<close>

definition completion_order :: "(int list \<Rightarrow> int list) \<Rightarrow> config \<Rightarrow> bool" where
  "completion_order c cfg =
     (mset (c [start_page cfg - 1 .. end_page cfg - 1]) = mset [start_page cfg - 1 .. end_page cfg - 1])"

text \<open>The tasks of \<open>process_pdf\<close>: what they leave and what they return.\<close>

definition tasks_of :: "env \<Rightarrow> (int list \<Rightarrow> int list) \<Rightarrow> config \<Rightarrow> outdir \<Rightarrow> engine_call list \<Rightarrow> world \<times> outcome list" where
  "tasks_of E c cfg od calls =
     run_tasks E (pdf_path cfg) (Matrix (dpi cfg)) (languages cfg)
       (c [start_page cfg - 1 .. end_page cfg - 1]) (mkdirs od calls)"

section \<open>Concrete stores and engines\<close>

text \<open>The store right after both collections were created.\<close>

definition empty_world :: world where
  "empty_world = \<lparr>png_images = [], text_files = [], combined_output = None, engine_calls = []\<rparr>"

text \<open>An output directory in which neither collection exists yet.\<close>

definition no_outdir :: outdir where
  "no_outdir = \<lparr>png_dir = None, txt_dir = None, master_file = None\<rparr>"

text \<open>
  A store with three rendered pages, the second of which failed in recognition; the text
  files are listed out of order, and the text of page 3 holds a carriage return with a
  line feed and a carriage return alone.
\<close>

definition store_a :: world where
  "store_a = \<lparr>png_images = [(''0001.png'', ''image 1''), (''0002.png'', ''image 2''), (''0003.png'', ''image 3'')],
              text_files = [(''0003.txt'', ''three'' @ [CHR 0x0D, CHR 0x0A] @ ''lines'' @ [CHR 0x0D] @ ''end''),
                            (''0001.txt'', ''one''),
                            (''0002.txt'', ''OCR FAILED FOR THIS PAGE: OCR failed: RuntimeError: boom'')],
              combined_output = None,
              engine_calls = []\<rparr>"

text \<open>
  A store in which page 2 failed in an earlier run and a combined artifact is left from
  an earlier run.
\<close>

definition store_b :: world where
  "store_b = \<lparr>png_images = [(''0002.png'', ''PNG2'')],
              text_files = [(''0002.txt'', ''OCR FAILED FOR THIS PAGE: OCR failed: RuntimeError: boom'')],
              combined_output = Some ''earlier run'',
              engine_calls = []\<rparr>"

text \<open>A store in which page 1 is complete.\<close>

definition store_one :: world where
  "store_one = \<lparr>png_images = [(''0001.png'', ''image 1'')], text_files = [(''0001.txt'', ''one'')],
                combined_output = None, engine_calls = []\<rparr>"

text \<open>A store with a render artifact for page 1 left by an interrupted run, and no text artifact.\<close>

definition store_stale :: world where
  "store_stale = \<lparr>png_images = [(''0001.png'', ''old image'')], text_files = [],
                  combined_output = None, engine_calls = []\<rparr>"

text \<open>A store with pages 1, 2 and 5 complete, page 3 rendered only, page 4 missing.\<close>

definition od_gap :: outdir where
  "od_gap = \<lparr>png_dir = Some [(''0005.png'', ''e''), (''0001.png'', ''a''), (''0003.png'', ''c''),
                             (''0002.png'', ''b'')],
             txt_dir = Some [(''0001.txt'', ''one''), (''0002.txt'', ''two''), (''0005.txt'', ''five'')],
             master_file = None\<rparr>"

text \<open>Stores with entries that are not zero-padded indices.\<close>

definition od_unpadded :: outdir where
  "od_unpadded = \<lparr>png_dir = Some [(''7.png'', ''g'')], txt_dir = Some [(''7.txt'', ''seven'')],
                  master_file = None\<rparr>"

definition od_superscript :: outdir where
  "od_superscript = \<lparr>png_dir = Some [(CHR 0xB2 # ''.png'', ''g'')],
                     txt_dir = Some [(CHR 0xB2 # ''.txt'', ''two'')], master_file = None\<rparr>"

text \<open>
  Engines for a document of three pages. With \<open>env_a\<close> every page succeeds; with
  \<open>env_b\<close> the recognition of page 2 and the rendering of page 3 raise; with \<open>env_c\<close> the
  only page is recognised as a text that contains the words OCR FAILED.
\<close>

definition env_a :: env where
  "env_a = \<lparr>pdf_exists = (\<lambda>path. True), page_count = (\<lambda>path. Inr 3),
            tesseract_found = (\<lambda>path. True),
            render_page = (\<lambda>path p mat. Inr (''image '' @ str_int (p + 1))),
            image_to_string = (\<lambda>pix langs. Inr ('' text of '' @ pix @ ''\<newline>''))\<rparr>"

definition env_b :: env where
  "env_b = \<lparr>pdf_exists = (\<lambda>path. True), page_count = (\<lambda>path. Inr 3),
            tesseract_found = (\<lambda>path. True),
            render_page = (\<lambda>path p mat. if p = 2 then Inl (PyError ''ValueError'' ''bad page'')
                                        else Inr (''image '' @ str_int (p + 1))),
            image_to_string = (\<lambda>pix langs. if pix = ''image 2'' then Inl (PyError ''RuntimeError'' ''boom'')
                                          else Inr ('' text of '' @ pix @ ''\<newline>''))\<rparr>"

definition env_c :: env where
  "env_c = \<lparr>pdf_exists = (\<lambda>path. True), page_count = (\<lambda>path. Inr 1),
            tesseract_found = (\<lambda>path. True),
            render_page = (\<lambda>path p mat. Inr (''image '' @ str_int (p + 1))),
            image_to_string = (\<lambda>pix langs. Inr ''Chapter 9: When OCR FAILED'')\<rparr>"

text \<open>Engines whose renderer cannot open the document.\<close>

definition env_r :: env where
  "env_r = \<lparr>pdf_exists = (\<lambda>path. True), page_count = (\<lambda>path. Inr 3),
            tesseract_found = (\<lambda>path. True),
            render_page = (\<lambda>path p mat. Inl (PyError ''FileDataError'' ''cannot open document'')),
            image_to_string = (\<lambda>pix langs. Inr ''text'')\<rparr>"

text \<open>Engines for which the Tesseract executable is not found.\<close>

definition env_t :: env where
  "env_t = \<lparr>pdf_exists = (\<lambda>path. True), page_count = (\<lambda>path. Inr 3),
            tesseract_found = (\<lambda>path. False),
            render_page = (\<lambda>path p mat. Inr (''image '' @ str_int (p + 1))),
            image_to_string = (\<lambda>pix langs. Inr ('' text of '' @ pix @ ''\<newline>''))\<rparr>"

text \<open>Configurations for pages 1 to 3 and for page 1 alone, and the arguments of the command line.\<close>

definition cfg_a :: config where
  "cfg_a = \<lparr>pdf_path = ''doc.pdf'', output_dir = ''.'', dpi = 300, languages = ''eng'',
            tesseract_path = ''/usr/bin/tesseract'', start_page = 1, end_page = 3\<rparr>"

definition cfg_c :: config where
  "cfg_c = \<lparr>pdf_path = ''doc.pdf'', output_dir = ''.'', dpi = 300, languages = ''eng'',
            tesseract_path = ''/usr/bin/tesseract'', start_page = 1, end_page = 1\<rparr>"

definition args_a :: args where
  "args_a = \<lparr>arg_pdf_path = ''doc.pdf'', arg_output_dir = ''.'', arg_dpi = 300, arg_lang = ''eng'',
             arg_tesseract_path = ''/usr/bin/tesseract''\<rparr>"

section \<open>Decimal numbers and file names\<close>

lemma val_snoc: "val (s @ [c]) = 10 * val s + digit_val c"
  by (simp add: val_def)

lemma digit_val_char: "d < 10 \<Longrightarrow> digit_val (digit_char d) = d"
  by (simp add: digit_val_def digit_char_def)

lemma digit_char_ascii: "d < 10 \<Longrightarrow> is_ascii_digit (digit_char d)"
  by (simp add: is_ascii_digit_def digit_char_def)

lemma val_dec: "val (dec n) = n"
proof (induction n rule: dec.induct)
  case (1 n)
  show ?case
  proof (cases "n < 10")
    case True
    then show ?thesis by (simp add: dec.simps[of n] val_def digit_val_char)
  next
    case False
    with 1 show ?thesis by (simp add: dec.simps[of n] val_snoc digit_val_char)
  qed
qed

lemma dec_digits: "list_all is_ascii_digit (dec n)"
proof (induction n rule: dec.induct)
  case (1 n)
  show ?case
  proof (cases "n < 10")
    case True
    then show ?thesis by (simp add: dec.simps[of n] digit_char_ascii)
  next
    case False
    with 1 show ?thesis by (simp add: dec.simps[of n] digit_char_ascii)
  qed
qed

lemma dec_nonempty: "dec n \<noteq> []"
  by (subst dec.simps) simp

lemma zero_ascii_digit: "is_ascii_digit (CHR ''0'')"
  by (simp add: is_ascii_digit_def)

lemma zfill_digits: "list_all is_ascii_digit s \<Longrightarrow> list_all is_ascii_digit (zfill w s)"
  by (auto simp: zfill_def zero_ascii_digit list_all_iff)

lemma zfill_nonempty: "s \<noteq> [] \<Longrightarrow> zfill w s \<noteq> []"
  by (simp add: zfill_def)

lemma val_zeros: "val (replicate k (CHR ''0'') @ s) = val s"
proof -
  have "foldl (\<lambda>a c. 10 * a + digit_val c) 0 (replicate k (CHR ''0'')) = 0"
    by (induction k) (simp_all add: digit_val_def)
  then show ?thesis by (simp add: val_def)
qed

lemma val_zfill: "val (zfill w s) = val s"
  by (simp add: zfill_def val_zeros)

lemma underscore_not_digit: "is_ascii_digit c \<Longrightarrow> c \<noteq> CHR ''_''"
  by (auto simp: is_ascii_digit_def)

lemma digit_groups_digits: "s \<noteq> [] \<Longrightarrow> list_all is_ascii_digit s \<Longrightarrow> digit_groups s"
  by (induction s rule: digit_groups.induct) (auto simp: underscore_not_digit)

lemma filter_underscore_digits:
  "list_all is_ascii_digit s \<Longrightarrow> filter (\<lambda>c. c \<noteq> CHR ''_'') s = s"
  by (induction s) (auto simp: underscore_not_digit)

lemma py_nat_digits: "s \<noteq> [] \<Longrightarrow> list_all is_ascii_digit s \<Longrightarrow> py_nat s = Some (val s)"
  by (simp add: py_nat_def digit_groups_digits filter_underscore_digits)

lemma digit_not_int_space: "is_ascii_digit c \<Longrightarrow> \<not> is_int_space c"
  by (auto simp: is_ascii_digit_def is_int_space_def Let_def)

lemma digit_not_sign: "is_ascii_digit c \<Longrightarrow> c \<noteq> CHR ''-'' \<and> c \<noteq> CHR ''+'' \<and> c \<noteq> CHR ''.''"
  by (auto simp: is_ascii_digit_def)

lemma minus_not_int_space: "\<not> is_int_space (CHR ''-'')"
  by (simp add: is_int_space_def)

lemma dropWhile_ends:
  assumes "s \<noteq> []" "\<not> P (hd s)" "\<not> P (last s)"
  shows "rev (dropWhile P (rev (dropWhile P s))) = s"
proof -
  from assms have 1: "dropWhile P s = s" by (cases s) auto
  from assms have "rev s \<noteq> []" "\<not> P (hd (rev s))" by (auto simp: hd_rev)
  then have "dropWhile P (rev s) = rev s" by (cases "rev s") auto
  with 1 show ?thesis by simp
qed

lemma py_int_digits:
  assumes "s \<noteq> []" "list_all is_ascii_digit s"
  shows "py_int s = Some (int (val s))"
proof -
  from assms have h: "is_ascii_digit (hd s)" and l: "is_ascii_digit (last s)"
    by (auto simp: list_all_iff)
  have strip: "rev (dropWhile is_int_space (rev (dropWhile is_int_space s))) = s"
    using assms(1) h l by (intro dropWhile_ends) (auto simp: digit_not_int_space)
  obtain c cs where s: "s = c # cs" using assms(1) by (cases s) auto
  with h have c: "c \<noteq> CHR ''-''" "c \<noteq> CHR ''+''" using digit_not_sign by auto
  show ?thesis
    unfolding py_int_def strip using s c py_nat_digits[OF assms] by simp
qed

lemma py_int_minus_digits:
  assumes "s \<noteq> []" "list_all is_ascii_digit s"
  shows "py_int (CHR ''-'' # s) = Some (- int (val s))"
proof -
  from assms have l: "is_ascii_digit (last s)" by (auto simp: list_all_iff)
  have strip: "rev (dropWhile is_int_space (rev (dropWhile is_int_space (CHR ''-'' # s)))) = CHR ''-'' # s"
    using assms(1) l by (intro dropWhile_ends) (auto simp: digit_not_int_space minus_not_int_space)
  show ?thesis
    unfolding py_int_def strip using py_nat_digits[OF assms] by simp
qed

lemma py_int_fmt04: "py_int (fmt04 i) = Some i"
proof (cases "i < 0")
  case True
  have "py_int (CHR ''-'' # zfill 3 (dec (nat (- i)))) = Some (- int (val (zfill 3 (dec (nat (- i))))))"
    by (intro py_int_minus_digits zfill_nonempty zfill_digits dec_digits dec_nonempty)
  with True show ?thesis by (simp add: fmt04_def val_zfill val_dec)
next
  case False
  have "py_int (zfill 4 (dec (nat i))) = Some (int (val (zfill 4 (dec (nat i)))))"
    by (intro py_int_digits zfill_nonempty zfill_digits dec_digits dec_nonempty)
  with False show ?thesis by (simp add: fmt04_def val_zfill val_dec)
qed

lemma fmt04_inj: "fmt04 i = fmt04 j \<longleftrightarrow> i = j"
  by (metis py_int_fmt04 option.inject)

lemma fmt04_nonempty: "fmt04 i \<noteq> []"
  by (simp add: fmt04_def zfill_nonempty dec_nonempty)

lemma fmt04_no_dot: "CHR ''.'' \<notin> set (fmt04 i)"
proof -
  have "\<And>s. list_all is_ascii_digit s \<Longrightarrow> CHR ''.'' \<notin> set s"
    using digit_not_sign by (auto simp: list_all_iff)
  then have "\<And>w n. CHR ''.'' \<notin> set (zfill w (dec n))"
    by (simp add: zfill_digits dec_digits)
  then show ?thesis by (simp add: fmt04_def)
qed

lemma has_suffix_ext:
  assumes "s \<noteq> []" "e \<noteq> []" "CHR ''.'' \<notin> set e"
  shows "has_suffix (s @ CHR ''.'' # e)"
    and "takeWhile (\<lambda>c. c \<noteq> CHR ''.'') (rev (s @ CHR ''.'' # e)) = rev e"
proof -
  show tw: "takeWhile (\<lambda>c. c \<noteq> CHR ''.'') (rev (s @ CHR ''.'' # e)) = rev e"
    using assms(3) by (auto simp: takeWhile_tail takeWhile_eq_all_conv)
  show "has_suffix (s @ CHR ''.'' # e)"
    unfolding has_suffix_def Let_def tw using assms by (cases s) auto
qed

lemma path_stem_ext:
  assumes "s \<noteq> []" "e \<noteq> []" "CHR ''.'' \<notin> set e"
  shows "path_stem (s @ CHR ''.'' # e) = s"
  using has_suffix_ext[OF assms] by (simp add: path_stem_def Let_def)

lemma path_suffix_ext:
  assumes "s \<noteq> []" "e \<noteq> []" "CHR ''.'' \<notin> set e"
  shows "path_suffix (s @ CHR ''.'' # e) = CHR ''.'' # e"
  using has_suffix_ext[OF assms] by (simp add: path_suffix_def Let_def)

lemma path_stem_txt: "path_stem (fmt04 i @ ''.txt'') = fmt04 i"
  using path_stem_ext[of "fmt04 i" "''txt''"] by (simp add: fmt04_nonempty)

lemma path_stem_png: "path_stem (fmt04 i @ ''.png'') = fmt04 i"
  using path_stem_ext[of "fmt04 i" "''png''"] by (simp add: fmt04_nonempty)

lemma path_suffix_png: "path_suffix (fmt04 i @ ''.png'') = ''.png''"
  using path_suffix_ext[of "fmt04 i" "''png''"] by (simp add: fmt04_nonempty)

lemma stem_suffix_join: "path_stem f @ path_suffix f = f"
proof (cases "has_suffix f")
  case False
  then show ?thesis by (simp add: path_stem_def path_suffix_def)
next
  case True
  define e where "e = takeWhile (\<lambda>c. c \<noteq> CHR ''.'') (rev f)"
  define d where "d = dropWhile (\<lambda>c. c \<noteq> CHR ''.'') (rev f)"
  from True have dot: "CHR ''.'' \<in> set (rev f)" by (simp add: has_suffix_def Let_def)
  have split: "rev f = e @ d" by (simp add: e_def d_def)
  obtain r where r: "d = CHR ''.'' # r"
  proof (cases d)
    case Nil
    with dot have False by (auto simp: d_def dropWhile_eq_Nil_conv)
    then show ?thesis ..
  next
    case (Cons y ys)
    then have "\<not> (y \<noteq> CHR ''.'')"
      unfolding d_def by (simp add: dropWhile_eq_Cons_conv)
    with Cons that show ?thesis by simp
  qed
  have "rev (rev f) = rev (e @ CHR ''.'' # r)" using split r by simp
  then have f: "f = rev r @ CHR ''.'' # rev e" by simp
  have len: "length f - length e - 1 = length r"
    by (subst f) simp
  have "take (length r) f = rev r" by (subst f) simp
  with True len show ?thesis
    unfolding path_stem_def path_suffix_def Let_def e_def[symmetric] using f by simp
qed

section \<open>The page task\<close>

lemma map_of_write: "map_of (write_file d n c) = (map_of d)(n \<mapsto> c)"
  by (simp add: write_file_def update_conv')

lemma txt_name_inj: "fmt04 i @ ''.txt'' = fmt04 j @ ''.txt'' \<longleftrightarrow> i = j"
  by (simp add: fmt04_inj)

lemma png_name_inj: "fmt04 i @ ''.png'' = fmt04 j @ ''.png'' \<longleftrightarrow> i = j"
  by (simp add: fmt04_inj)

lemma task_skip:
  assumes "render_artifact w (p + 1) \<noteq> None" "text_artifact w (p + 1) \<noteq> None"
  shows "process_page_task E path p m l w = (w, Returned True (p + 1) None)"
  using assms
  by (simp add: process_page_task_def render_artifact_def text_artifact_def file_exists_def)

text \<open>The task unfolded over the artifacts of its page.\<close>

lemma task_render_fails:
  assumes "render_artifact w (p + 1) = None \<or> text_artifact w (p + 1) = None"
    and "render_page E path p m = Inl e"
  shows "process_page_task E path p m l w =
     (w\<lparr>engine_calls := engine_calls w @ [RenderCall p],
        text_files := write_file (text_files w) (fmt04 (p + 1) @ ''.txt'')
           (FAILURE_SENTINEL @ ''OCR failed: '' @ kind e @ '': '' @ detail e)\<rparr>,
      Returned False (p + 1) (Some (''OCR failed: '' @ kind e @ '': '' @ detail e)))"
  using assms
  by (auto simp: process_page_task_def render_artifact_def text_artifact_def file_exists_def
      on_exception_def Let_def)

lemma task_ocr_fails:
  assumes "render_artifact w (p + 1) = None \<or> text_artifact w (p + 1) = None"
    and "render_page E path p m = Inr pix" and "image_to_string E pix l = Inl e"
  shows "process_page_task E path p m l w =
     (w\<lparr>engine_calls := engine_calls w @ [RenderCall p, OcrCall p],
        png_images := write_file (png_images w) (fmt04 (p + 1) @ ''.png'') pix,
        text_files := write_file (text_files w) (fmt04 (p + 1) @ ''.txt'')
           (FAILURE_SENTINEL @ ''OCR failed: '' @ kind e @ '': '' @ detail e)\<rparr>,
      Returned False (p + 1) (Some (''OCR failed: '' @ kind e @ '': '' @ detail e)))"
  using assms
  by (auto simp: process_page_task_def render_artifact_def text_artifact_def file_exists_def
      on_exception_def Let_def)

lemma task_succeeds:
  assumes "render_artifact w (p + 1) = None \<or> text_artifact w (p + 1) = None"
    and "render_page E path p m = Inr pix" and "image_to_string E pix l = Inr text"
  shows "process_page_task E path p m l w =
     (w\<lparr>engine_calls := engine_calls w @ [RenderCall p, OcrCall p],
        png_images := write_file (png_images w) (fmt04 (p + 1) @ ''.png'') pix,
        text_files := write_file (text_files w) (fmt04 (p + 1) @ ''.txt'') (py_strip text)\<rparr>,
      Returned True (p + 1) None)"
  using assms
  by (auto simp: process_page_task_def render_artifact_def text_artifact_def file_exists_def
      Let_def)

text \<open>The four ways a task ends.\<close>

lemma task_cases:
  obtains (skip) "render_artifact w (p + 1) \<noteq> None" "text_artifact w (p + 1) \<noteq> None"
  | (render_fails) e where "render_artifact w (p + 1) = None \<or> text_artifact w (p + 1) = None"
      "render_page E path p m = Inl e"
  | (ocr_fails) pix e where "render_artifact w (p + 1) = None \<or> text_artifact w (p + 1) = None"
      "render_page E path p m = Inr pix" "image_to_string E pix l = Inl e"
  | (succeeds) pix ocr_text where "render_artifact w (p + 1) = None \<or> text_artifact w (p + 1) = None"
      "render_page E path p m = Inr pix" "image_to_string E pix l = Inr ocr_text"
proof (cases "render_artifact w (p + 1) \<noteq> None \<and> text_artifact w (p + 1) \<noteq> None")
  case True
  then show ?thesis using skip by simp
next
  case False
  then have n: "render_artifact w (p + 1) = None \<or> text_artifact w (p + 1) = None" by simp
  show ?thesis
  proof (cases "render_page E path p m")
    case (Inl e)
    with n show ?thesis using render_fails by simp
  next
    case (Inr pix)
    with n show ?thesis using ocr_fails succeeds by (cases "image_to_string E pix l") auto
  qed
qed

lemma task_frame_txt:
  assumes "name \<noteq> fmt04 (p + 1) @ ''.txt''"
  shows "map_of (text_files (fst (process_page_task E path p m l w))) name = map_of (text_files w) name"
  using assms
  by (cases rule: task_cases[where w=w and p=p and E=E and path=path and m=m and l=l])
     (simp_all add: task_skip task_render_fails task_ocr_fails task_succeeds map_of_write)

lemma task_frame_png:
  assumes "name \<noteq> fmt04 (p + 1) @ ''.png''"
  shows "map_of (png_images (fst (process_page_task E path p m l w))) name = map_of (png_images w) name"
  using assms
  by (cases rule: task_cases[where w=w and p=p and E=E and path=path and m=m and l=l])
     (simp_all add: task_skip task_render_fails task_ocr_fails task_succeeds map_of_write)

lemma task_combined:
  "combined_output (fst (process_page_task E path p m l w)) = combined_output w"
  by (cases rule: task_cases[where w=w and p=p and E=E and path=path and m=m and l=l])
     (simp_all add: task_skip task_render_fails task_ocr_fails task_succeeds)

lemma task_frame:
  assumes "i \<noteq> p + 1"
  shows "render_artifact (fst (process_page_task E path p m l w)) i = render_artifact w i"
    and "text_artifact (fst (process_page_task E path p m l w)) i = text_artifact w i"
  using assms by (simp_all add: render_artifact_def text_artifact_def task_frame_png task_frame_txt fmt04_inj)

lemma task_local:
  assumes "render_artifact w1 (p + 1) = render_artifact w2 (p + 1)"
    and "text_artifact w1 (p + 1) = text_artifact w2 (p + 1)"
  shows "snd (process_page_task E path p m l w1) = snd (process_page_task E path p m l w2)"
    and "render_artifact (fst (process_page_task E path p m l w1)) (p + 1)
          = render_artifact (fst (process_page_task E path p m l w2)) (p + 1)"
    and "text_artifact (fst (process_page_task E path p m l w1)) (p + 1)
          = text_artifact (fst (process_page_task E path p m l w2)) (p + 1)"
proof -
  have "snd (process_page_task E path p m l w1) = snd (process_page_task E path p m l w2)
    \<and> render_artifact (fst (process_page_task E path p m l w1)) (p + 1)
          = render_artifact (fst (process_page_task E path p m l w2)) (p + 1)
    \<and> text_artifact (fst (process_page_task E path p m l w1)) (p + 1)
          = text_artifact (fst (process_page_task E path p m l w2)) (p + 1)"
  proof (cases rule: task_cases[where w=w1 and p=p and E=E and path=path and m=m and l=l])
    case skip
    with assms show ?thesis by (simp add: task_skip)
  next
    case (render_fails e)
    with assms show ?thesis
      by (simp add: task_render_fails render_artifact_def text_artifact_def map_of_write)
  next
    case (ocr_fails pix e)
    with assms show ?thesis
      by (simp add: task_ocr_fails render_artifact_def text_artifact_def map_of_write)
  next
    case (succeeds pix ocr_text)
    with assms show ?thesis
      by (simp add: task_succeeds render_artifact_def text_artifact_def map_of_write)
  qed
  then show "snd (process_page_task E path p m l w1) = snd (process_page_task E path p m l w2)"
    and "render_artifact (fst (process_page_task E path p m l w1)) (p + 1)
          = render_artifact (fst (process_page_task E path p m l w2)) (p + 1)"
    and "text_artifact (fst (process_page_task E path p m l w1)) (p + 1)
          = text_artifact (fst (process_page_task E path p m l w2)) (p + 1)"
    by simp_all
qed

lemma task_text_exists:
  "text_artifact (fst (process_page_task E path p m l w)) (p + 1) \<noteq> None"
  by (cases rule: task_cases[where w=w and p=p and E=E and path=path and m=m and l=l])
     (simp_all add: task_skip task_render_fails task_ocr_fails task_succeeds text_artifact_def map_of_write)

lemma task_returns:
  "snd (process_page_task E path p m l w) = Returned True (p + 1) None
   \<or> (\<exists>msg. snd (process_page_task E path p m l w) = Returned False (p + 1) (Some msg))"
  by (cases rule: task_cases[where w=w and p=p and E=E and path=path and m=m and l=l])
     (simp_all add: task_skip task_render_fails task_ocr_fails task_succeeds)

section \<open>Runs of tasks\<close>

lemma run_tasks_Cons:
  "run_tasks E path m l (p # ps) w =
     (fst (run_tasks E path m l ps (fst (process_page_task E path p m l w))),
      snd (process_page_task E path p m l w)
        # snd (run_tasks E path m l ps (fst (process_page_task E path p m l w))))"
  by (simp split: prod.splits)

lemma run_frame_txt:
  "\<forall>p\<in>set ps. name \<noteq> fmt04 (p + 1) @ ''.txt'' \<Longrightarrow>
   map_of (text_files (fst (run_tasks E path m l ps w))) name = map_of (text_files w) name"
  by (induction ps arbitrary: w) (simp_all add: run_tasks_Cons task_frame_txt del: run_tasks.simps(2))

lemma run_frame_png:
  "\<forall>p\<in>set ps. name \<noteq> fmt04 (p + 1) @ ''.png'' \<Longrightarrow>
   map_of (png_images (fst (run_tasks E path m l ps w))) name = map_of (png_images w) name"
  by (induction ps arbitrary: w) (simp_all add: run_tasks_Cons task_frame_png del: run_tasks.simps(2))

lemma run_combined:
  "combined_output (fst (run_tasks E path m l ps w)) = combined_output w"
  by (induction ps arbitrary: w) (simp_all add: run_tasks_Cons task_combined del: run_tasks.simps(2))

lemma run_frame:
  assumes "i - 1 \<notin> set ps"
  shows "render_artifact (fst (run_tasks E path m l ps w)) i = render_artifact w i"
    and "text_artifact (fst (run_tasks E path m l ps w)) i = text_artifact w i"
proof -
  from assms have "\<forall>p\<in>set ps. i \<noteq> p + 1" by auto
  then show "render_artifact (fst (run_tasks E path m l ps w)) i = render_artifact w i"
    and "text_artifact (fst (run_tasks E path m l ps w)) i = text_artifact w i"
    by (simp_all add: render_artifact_def text_artifact_def run_frame_png run_frame_txt fmt04_inj)
qed

lemma run_results:
  "distinct ps \<Longrightarrow>
   snd (run_tasks E path m l ps w) = map (\<lambda>p. snd (process_page_task E path p m l w)) ps"
proof (induction ps arbitrary: w)
  case Nil
  show ?case by simp
next
  case (Cons p ps)
  let ?w1 = "fst (process_page_task E path p m l w)"
  have "snd (process_page_task E path q m l ?w1) = snd (process_page_task E path q m l w)"
    if "q \<in> set ps" for q
  proof -
    from that Cons.prems have "q + 1 \<noteq> p + 1" by auto
    then show ?thesis by (intro task_local(1)) (simp_all add: task_frame)
  qed
  with Cons show ?case by (simp add: run_tasks_Cons del: run_tasks.simps(2))
qed

lemma run_final:
  assumes "distinct ps" "p \<in> set ps"
  shows "render_artifact (fst (run_tasks E path m l ps w)) (p + 1)
           = render_artifact (fst (process_page_task E path p m l w)) (p + 1)"
    and "text_artifact (fst (run_tasks E path m l ps w)) (p + 1)
           = text_artifact (fst (process_page_task E path p m l w)) (p + 1)"
proof -
  have "render_artifact (fst (run_tasks E path m l ps w)) (p + 1)
           = render_artifact (fst (process_page_task E path p m l w)) (p + 1)
      \<and> text_artifact (fst (run_tasks E path m l ps w)) (p + 1)
           = text_artifact (fst (process_page_task E path p m l w)) (p + 1)"
    using assms
  proof (induction ps arbitrary: w)
    case Nil
    then show ?case by simp
  next
    case (Cons q ps)
    let ?w1 = "fst (process_page_task E path q m l w)"
    show ?case
    proof (cases "p = q")
      case True
      with Cons.prems have "(p + 1) - 1 \<notin> set ps" by simp
      then show ?thesis
        using True by (simp add: run_tasks_Cons run_frame del: run_tasks.simps(2))
    next
      case False
      with Cons.prems have "distinct ps" "p \<in> set ps" by auto
      from Cons.IH[OF this]
      have ih: "render_artifact (fst (run_tasks E path m l ps ?w1)) (p + 1)
                  = render_artifact (fst (process_page_task E path p m l ?w1)) (p + 1)"
               "text_artifact (fst (run_tasks E path m l ps ?w1)) (p + 1)
                  = text_artifact (fst (process_page_task E path p m l ?w1)) (p + 1)"
        by simp_all
      from False have ne: "p + 1 \<noteq> q + 1" by simp
      have agree: "render_artifact ?w1 (p + 1) = render_artifact w (p + 1)"
                  "text_artifact ?w1 (p + 1) = text_artifact w (p + 1)"
        using ne by (simp_all add: task_frame)
      have "render_artifact (fst (process_page_task E path p m l ?w1)) (p + 1)
                  = render_artifact (fst (process_page_task E path p m l w)) (p + 1)"
        by (rule task_local(2)[OF agree])
      moreover have "text_artifact (fst (process_page_task E path p m l ?w1)) (p + 1)
                  = text_artifact (fst (process_page_task E path p m l w)) (p + 1)"
        by (rule task_local(3)[OF agree])
      ultimately show ?thesis using ih by (simp add: run_tasks_Cons del: run_tasks.simps(2))
    qed
  qed
  then show "render_artifact (fst (run_tasks E path m l ps w)) (p + 1)
           = render_artifact (fst (process_page_task E path p m l w)) (p + 1)"
    and "text_artifact (fst (run_tasks E path m l ps w)) (p + 1)
           = text_artifact (fst (process_page_task E path p m l w)) (p + 1)"
    by simp_all
qed

lemma run_all_skip:
  "\<forall>p\<in>set ps. render_artifact w (p + 1) \<noteq> None \<and> text_artifact w (p + 1) \<noteq> None \<Longrightarrow>
   run_tasks E path m l ps w = (w, map (\<lambda>p. Returned True (p + 1) None) ps)"
  by (induction ps) (simp_all add: task_skip)

text \<open>The aggregator.\<close>

lemma collect_foldl:
  assumes "\<forall>r\<in>set rs. r = Returned True (idx r) None \<or> (\<exists>msg. r = Returned False (idx r) (Some msg))"
  shows "fst (foldl collect (sc, fc, msgs) rs) = sc + length (filter succeeded rs)
       \<and> fst (snd (foldl collect (sc, fc, msgs) rs)) = fc + length (filter (\<lambda>r. \<not> succeeded r) rs)"
  using assms
proof (induction rs arbitrary: sc fc msgs)
  case Nil
  show ?case by simp
next
  case (Cons r rs)
  from Cons.prems have r: "r = Returned True (idx r) None \<or> (\<exists>msg. r = Returned False (idx r) (Some msg))"
    and rest: "\<forall>r\<in>set rs. r = Returned True (idx r) None \<or> (\<exists>msg. r = Returned False (idx r) (Some msg))"
    by simp_all
  from r show ?case
  proof
    assume t: "r = Returned True (idx r) None"
    have c: "collect (sc, fc, msgs) r = (sc + 1, fc, msgs)"
      by (subst t) (simp add: collect_def)
    have s: "succeeded r" by (subst t) (simp add: succeeded_def)
    show ?thesis using Cons.IH[OF rest, of "sc + 1" fc msgs] c s by simp
  next
    assume "\<exists>msg. r = Returned False (idx r) (Some msg)"
    then obtain msg where f: "r = Returned False (idx r) (Some msg)" ..
    have c: "collect (sc, fc, msgs) r = (sc, fc + 1, msgs @ [''Page '' @ fmt04 (idx r) @ '': '' @ msg])"
      by (subst f) (simp add: collect_def)
    have s: "\<not> succeeded r" by (subst f) (simp add: succeeded_def)
    show ?thesis
      using Cons.IH[OF rest, of sc "fc + 1" "msgs @ [''Page '' @ fmt04 (idx r) @ '': '' @ msg]"] c s
      by simp
  qed
qed

section \<open>The combiner\<close>

lemma sorted_files_pages:
  "filter (qualifies t) (map (\<lambda>page_index. fmt04 page_index @ ''.txt'') xs)
     = map (\<lambda>i. fmt04 i @ ''.txt'') (filter (\<lambda>i. qualifies t (fmt04 i @ ''.txt'')) xs)"
  by (simp add: filter_map comp_def)

lemma write_sections_pages:
  "\<forall>i\<in>set xs. qualifies t (fmt04 i @ ''.txt'') \<Longrightarrow>
   write_sections t (map (\<lambda>i. fmt04 i @ ''.txt'') xs) out
     = (out @ concat (map (\<lambda>i. page_header i @ read_text (the (map_of t (fmt04 i @ ''.txt'')))) xs), None)"
proof (induction xs arbitrary: out)
  case Nil
  show ?case by simp
next
  case (Cons i xs)
  from Cons.prems have "qualifies t (fmt04 i @ ''.txt'')" by simp
  then obtain c where c: "map_of t (fmt04 i @ ''.txt'') = Some c"
    by (auto simp: qualifies_def split: option.splits)
  from Cons.prems have rest: "\<forall>i\<in>set xs. qualifies t (fmt04 i @ ''.txt'')" by simp
  show ?case
    using Cons.IH[OF rest] c by (simp add: path_stem_txt py_int_fmt04)
qed

lemma combine_text_files_eq:
  "combine_text_files w s e =
     (let banner = ''\<newline>--- Combining Text Output (Pages '' @ str_int s @ ''-'' @ str_int e @ '') ---''
      in if merged_pages w s e = []
         then (w, [banner, ''No successful text files found to combine in this range.''])
         else (w\<lparr>combined_output :=
                   Some (concat (map (\<lambda>i. page_header i @ read_text (the (text_artifact w i))) (merged_pages w s e)))\<rparr>,
               [banner, ''Successfully merged '' @ dec (length (merged_pages w s e))
                          @ '' pages into: combined_output.txt'']))"
proof -
  have q: "\<forall>i\<in>set (merged_pages w s e). qualifies (text_files w) (fmt04 i @ ''.txt'')"
    by (simp add: merged_pages_def)
  have ws: "write_sections (text_files w) (map (\<lambda>i. fmt04 i @ ''.txt'') (merged_pages w s e)) []
      = (concat (map (\<lambda>i. page_header i @ read_text (the (text_artifact w i))) (merged_pages w s e)), None)"
    using write_sections_pages[OF q, of "[]"] by (simp add: text_artifact_def)
  show ?thesis
    unfolding combine_text_files_def Let_def sorted_files_pages merged_pages_def[symmetric] ws
    by simp
qed

lemma merged_pages_ascending: "sorted_wrt (<) (merged_pages w s e)"
proof -
  have "sorted_wrt (<) [s..e]" by (simp add: strict_sorted_iff)
  then show ?thesis unfolding merged_pages_def by (rule sorted_wrt_filter)
qed

lemma combine_frame:
  "png_images (fst (combine_text_files w s e)) = png_images w"
  "text_files (fst (combine_text_files w s e)) = text_files w"
  "engine_calls (fst (combine_text_files w s e)) = engine_calls w"
  by (simp_all add: combine_text_files_eq Let_def)

lemma merged_pages_cong:
  "text_files w' = text_files w \<Longrightarrow> merged_pages w' s e = merged_pages w s e"
  by (simp add: merged_pages_def)

lemma combined_update_obs:
  "merged_pages (w\<lparr>combined_output := x\<rparr>) s e = merged_pages w s e"
  "text_artifact (w\<lparr>combined_output := x\<rparr>) i = text_artifact w i"
  "render_artifact (w\<lparr>combined_output := x\<rparr>) i = render_artifact w i"
  by (simp_all add: merged_pages_def text_artifact_def render_artifact_def)

lemma combine_idem:
  "combine_text_files (fst (combine_text_files w s e)) s e
     = (fst (combine_text_files w s e), snd (combine_text_files w s e))"
  by (simp add: combine_text_files_eq Let_def combined_update_obs)

lemma read_text_Cons: "c \<noteq> CHR 0x0D \<Longrightarrow> read_text (c # cs) = c # read_text cs"
  by (cases cs) simp_all

lemma read_text_sentinel: "read_text (FAILURE_SENTINEL @ r) = FAILURE_SENTINEL @ read_text r"
  by (simp add: FAILURE_SENTINEL_def read_text_Cons del: read_text.simps)

lemma sentinel_is_marked:
  assumes "prefix FAILURE_SENTINEL c"
  shows "str_contains ''OCR FAILED'' (take 50 (read_text c))"
proof -
  from assms obtain r where "c = FAILURE_SENTINEL @ r" by (auto simp: prefix_def)
  then have "read_text c = FAILURE_SENTINEL @ read_text r" by (simp only: read_text_sentinel)
  then show ?thesis by (simp add: FAILURE_SENTINEL_def)
qed

lemma sentinel_not_qualifies:
  "case map_of t f of None \<Rightarrow> True | Some c \<Rightarrow> prefix FAILURE_SENTINEL c \<Longrightarrow> \<not> qualifies t f"
  by (auto simp: qualifies_def sentinel_is_marked split: option.splits)

section \<open>Claims about the combiner\<close>

text \<open>
  Claim C9 (zero-qualify merge). When every text artifact of the range is missing or
  begins with the failure sentinel, \<open>combine_text_files\<close> writes no merged artifact,
  prints that nothing was found to combine, and returns the state it was given: every
  file of the store, a combined artifact of an earlier run included, is unchanged.
\<close>

theorem combine_zero_qualify:
  assumes "\<forall>i\<in>{s..e}. case text_artifact w i of None \<Rightarrow> True | Some c \<Rightarrow> prefix FAILURE_SENTINEL c"
  shows "combine_text_files w s e =
     (w, [''\<newline>--- Combining Text Output (Pages '' @ str_int s @ ''-'' @ str_int e @ '') ---'',
          ''No successful text files found to combine in this range.''])"
proof -
  have "\<not> qualifies (text_files w) (fmt04 i @ ''.txt'')" if "i \<in> set [s..e]" for i
  proof (rule sentinel_not_qualifies)
    from that assms
    show "case map_of (text_files w) (fmt04 i @ ''.txt'') of None \<Rightarrow> True
          | Some c \<Rightarrow> prefix FAILURE_SENTINEL c"
      by (simp add: text_artifact_def)
  qed
  then have "merged_pages w s e = []"
    unfolding merged_pages_def filter_empty_conv by blast
  then show ?thesis by (simp add: combine_text_files_eq)
qed

theorem combine_zero_qualify_witness:
  "text_artifact store_b 1 = None
   \<and> text_artifact store_b 2 = Some ''OCR FAILED FOR THIS PAGE: OCR failed: RuntimeError: boom''
   \<and> combine_text_files store_b 1 2 =
       (store_b, [''\<newline>--- Combining Text Output (Pages 1-2) ---'',
                  ''No successful text files found to combine in this range.''])
   \<and> combined_output (fst (combine_text_files store_b 1 2)) = Some ''earlier run''"
proof -
  have t1: "text_artifact store_b 1 = None" by code_simp
  have t2: "text_artifact store_b 2 = Some ''OCR FAILED FOR THIS PAGE: OCR failed: RuntimeError: boom''"
    by code_simp
  have range: "{1..2::int} = {1, 2}" by auto
  have hyp: "\<forall>i\<in>{1..2}. case text_artifact store_b i of None \<Rightarrow> True | Some c \<Rightarrow> prefix FAILURE_SENTINEL c"
    unfolding range by (simp add: t1 t2 FAILURE_SENTINEL_def)
  have s1: "str_int 1 = ''1''" by code_simp
  have s2: "str_int 2 = ''2''" by code_simp
  have co: "combined_output store_b = Some ''earlier run''" by (simp add: store_b_def)
  show ?thesis
    using combine_zero_qualify[OF hyp] t1 t2 s1 s2 co by simp
qed

section \<open>The run unfolded\<close>

lemma process_pdf_not_found:
  "\<not> tesseract_found E (tesseract_path cfg) \<Longrightarrow>
   process_pdf E c cfg od calls =
     \<lparr>final = mkdirs od calls, success_count = 0, failure_count = 0, failure_messages = [],
      combiner_lines = [], collected = []\<rparr>"
  by (simp add: process_pdf_def)

lemma process_pdf_found:
  assumes "tesseract_found E (tesseract_path cfg)"
  shows "final (process_pdf E c cfg od calls) =
           (if 0 < fst (tally (snd (tasks_of E c cfg od calls)))
            then fst (combine_text_files (fst (tasks_of E c cfg od calls)) (start_page cfg) (end_page cfg))
            else fst (tasks_of E c cfg od calls))"
    and "success_count (process_pdf E c cfg od calls) = fst (tally (snd (tasks_of E c cfg od calls)))"
    and "failure_count (process_pdf E c cfg od calls) = fst (snd (tally (snd (tasks_of E c cfg od calls))))"
    and "collected (process_pdf E c cfg od calls) = snd (tasks_of E c cfg od calls)"
    and "combiner_lines (process_pdf E c cfg od calls) =
           (if 0 < fst (tally (snd (tasks_of E c cfg od calls)))
            then snd (combine_text_files (fst (tasks_of E c cfg od calls)) (start_page cfg) (end_page cfg))
            else [])"
  using assms
  by (simp_all add: process_pdf_def tasks_of_def Let_def split: prod.splits)

lemma perm_pages:
  assumes "completion_order c cfg"
  shows "distinct (c [start_page cfg - 1 .. end_page cfg - 1])"
    and "set (c [start_page cfg - 1 .. end_page cfg - 1]) = {start_page cfg - 1 .. end_page cfg - 1}"
proof -
  let ?ps = "[start_page cfg - 1 .. end_page cfg - 1]"
  from assms have m: "mset (c ?ps) = mset ?ps" by (simp add: completion_order_def)
  have "distinct ?ps" by simp
  with m show "distinct (c ?ps)" by (simp add: mset_eq_imp_distinct_iff)
  from m have "set (c ?ps) = set ?ps" by (rule mset_eq_setD)
  then show "set (c ?ps) = {start_page cfg - 1 .. end_page cfg - 1}" by simp
qed

lemma tasks_results:
  assumes "completion_order c cfg"
  shows "snd (tasks_of E c cfg od calls) =
     map (\<lambda>p. snd (process_page_task E (pdf_path cfg) p (Matrix (dpi cfg)) (languages cfg) (mkdirs od calls)))
       (c [start_page cfg - 1 .. end_page cfg - 1])"
  unfolding tasks_of_def using perm_pages(1)[OF assms] by (rule run_results)

lemma tasks_artifacts:
  assumes "completion_order c cfg"
    and "i \<in> {start_page cfg .. end_page cfg}"
  shows "render_artifact (fst (tasks_of E c cfg od calls)) i =
           render_artifact (fst (process_page_task E (pdf_path cfg) (i - 1) (Matrix (dpi cfg)) (languages cfg) (mkdirs od calls))) i"
    and "text_artifact (fst (tasks_of E c cfg od calls)) i =
           text_artifact (fst (process_page_task E (pdf_path cfg) (i - 1) (Matrix (dpi cfg)) (languages cfg) (mkdirs od calls))) i"
proof -
  from assms(2) have "i - 1 \<in> set (c [start_page cfg - 1 .. end_page cfg - 1])"
    unfolding perm_pages(2)[OF assms(1)] by simp
  from run_final[OF perm_pages(1)[OF assms(1)] this]
  show "render_artifact (fst (tasks_of E c cfg od calls)) i =
           render_artifact (fst (process_page_task E (pdf_path cfg) (i - 1) (Matrix (dpi cfg)) (languages cfg) (mkdirs od calls))) i"
    and "text_artifact (fst (tasks_of E c cfg od calls)) i =
           text_artifact (fst (process_page_task E (pdf_path cfg) (i - 1) (Matrix (dpi cfg)) (languages cfg) (mkdirs od calls))) i"
    unfolding tasks_of_def by simp_all
qed

lemma tasks_text_files_order:
  assumes "completion_order c cfg"
    and "completion_order c' cfg"
  shows "map_of (text_files (fst (tasks_of E c cfg od calls))) name
       = map_of (text_files (fst (tasks_of E c' cfg od calls))) name"
proof (cases "\<exists>i\<in>{start_page cfg .. end_page cfg}. name = fmt04 i @ ''.txt''")
  case True
  then obtain i where i: "i \<in> {start_page cfg .. end_page cfg}" and n: "name = fmt04 i @ ''.txt''" by auto
  from tasks_artifacts(2)[OF assms(1) i, of E od calls] tasks_artifacts(2)[OF assms(2) i, of E od calls]
  show ?thesis by (simp add: text_artifact_def n)
next
  case False
  have "\<forall>p\<in>set (c [start_page cfg - 1 .. end_page cfg - 1]). name \<noteq> fmt04 (p + 1) @ ''.txt''"
    unfolding perm_pages(2)[OF assms(1)] using False by auto
  moreover have "\<forall>p\<in>set (c' [start_page cfg - 1 .. end_page cfg - 1]). name \<noteq> fmt04 (p + 1) @ ''.txt''"
    unfolding perm_pages(2)[OF assms(2)] using False by auto
  ultimately show ?thesis unfolding tasks_of_def by (simp add: run_frame_txt)
qed

lemma tasks_wellformed:
  assumes "completion_order c cfg"
  shows "\<forall>r\<in>set (snd (tasks_of E c cfg od calls)).
           r = Returned True (page_of r) None \<or> (\<exists>msg. r = Returned False (page_of r) (Some msg))"
proof
  fix r assume "r \<in> set (snd (tasks_of E c cfg od calls))"
  then obtain p where
    r: "r = snd (process_page_task E (pdf_path cfg) p (Matrix (dpi cfg)) (languages cfg) (mkdirs od calls))"
    unfolding tasks_results[OF assms] by auto
  from task_returns[of E "pdf_path cfg" p "Matrix (dpi cfg)" "languages cfg" "mkdirs od calls"]
  show "r = Returned True (page_of r) None \<or> (\<exists>msg. r = Returned False (page_of r) (Some msg))"
    unfolding r[symmetric] by (auto simp: page_of_def)
qed

lemma tally_counts:
  assumes "\<forall>r\<in>set rs. r = Returned True (page_of r) None \<or> (\<exists>msg. r = Returned False (page_of r) (Some msg))"
  shows "fst (tally rs) = length (filter succeeded rs)"
    and "fst (snd (tally rs)) = length (filter (\<lambda>r. \<not> succeeded r) rs)"
  using collect_foldl[OF assms, of 0 0 "[]"] by (simp_all add: tally_def)

lemma tally_sum:
  assumes "\<forall>r\<in>set rs. r = Returned True (page_of r) None \<or> (\<exists>msg. r = Returned False (page_of r) (Some msg))"
  shows "fst (tally rs) + fst (snd (tally rs)) = length rs"
  unfolding tally_counts[OF assms] by (rule sum_length_filter_compl)

lemma tasks_success_order:
  assumes "completion_order c cfg" "completion_order c' cfg"
  shows "fst (tally (snd (tasks_of E c cfg od calls))) = fst (tally (snd (tasks_of E c' cfg od calls)))"
    and "fst (snd (tally (snd (tasks_of E c cfg od calls)))) = fst (snd (tally (snd (tasks_of E c' cfg od calls))))"
proof -
  let ?ps = "[start_page cfg - 1 .. end_page cfg - 1]"
  from assms have "mset (c ?ps) = mset (c' ?ps)" by (simp add: completion_order_def)
  then have m: "mset (snd (tasks_of E c cfg od calls)) = mset (snd (tasks_of E c' cfg od calls))"
    unfolding tasks_results[OF assms(1)] tasks_results[OF assms(2)] by (metis mset_map)
  have len: "length (filter P xs) = size (filter_mset P (mset xs))" for P and xs :: "outcome list"
    by (simp flip: mset_filter)
  show "fst (tally (snd (tasks_of E c cfg od calls))) = fst (tally (snd (tasks_of E c' cfg od calls)))"
    unfolding tally_counts(1)[OF tasks_wellformed[OF assms(1)]] tally_counts(1)[OF tasks_wellformed[OF assms(2)]]
      len m ..
  show "fst (snd (tally (snd (tasks_of E c cfg od calls)))) = fst (snd (tally (snd (tasks_of E c' cfg od calls))))"
    unfolding tally_counts(2)[OF tasks_wellformed[OF assms(1)]] tally_counts(2)[OF tasks_wellformed[OF assms(2)]]
      len m ..
qed

lemma combine_output_cong:
  assumes "\<And>name. map_of (text_files w) name = map_of (text_files w') name"
    and "combined_output w = combined_output w'"
  shows "combined_output (fst (combine_text_files w s e)) = combined_output (fst (combine_text_files w' s e))"
    and "snd (combine_text_files w s e) = snd (combine_text_files w' s e)"
proof -
  have q: "qualifies (text_files w) f = qualifies (text_files w') f" for f
    by (simp add: qualifies_def assms(1))
  have mp: "merged_pages w s e = merged_pages w' s e" by (simp add: merged_pages_def q)
  have ta: "text_artifact w i = text_artifact w' i" for i by (simp add: text_artifact_def assms(1))
  show "combined_output (fst (combine_text_files w s e)) = combined_output (fst (combine_text_files w' s e))"
    by (simp add: combine_text_files_eq Let_def mp ta assms(2))
  show "snd (combine_text_files w s e) = snd (combine_text_files w' s e)"
    by (simp add: combine_text_files_eq Let_def mp ta)
qed

lemma tasks_combined: "combined_output (fst (tasks_of E c cfg od calls)) = master_file od"
  by (simp add: tasks_of_def run_combined mkdirs_def)

lemma combined_output_order:
  assumes "completion_order c cfg" "completion_order c' cfg"
  shows "combined_output (final (process_pdf E c cfg od calls))
       = combined_output (final (process_pdf E c' cfg od calls))"
proof (cases "tesseract_found E (tesseract_path cfg)")
  case False
  then show ?thesis by (simp add: process_pdf_not_found)
next
  case True
  have "combined_output (fst (combine_text_files (fst (tasks_of E c cfg od calls)) (start_page cfg) (end_page cfg)))
      = combined_output (fst (combine_text_files (fst (tasks_of E c' cfg od calls)) (start_page cfg) (end_page cfg)))"
    by (rule combine_output_cong(1)) (simp_all add: tasks_text_files_order[OF assms] tasks_combined)
  then show ?thesis
    by (simp add: process_pdf_found(1)[OF True] tasks_success_order(1)[OF assms] tasks_combined)
qed

section \<open>Claims about the combined artifact\<close>

text \<open>
  Claim C7 (format and order of the combined artifact). Whenever \<open>combine_text_files\<close>
  writes the merged artifact, it holds the accepted pages of the range in strictly
  ascending order, each page's text (as read from its file in text mode) preceded by
  exactly the delimiter \<open>\n\n==================== PAGE n ====================\n\n\<close> with
  \<open>n\<close> the 1-based index of the page; and the combined artifact a run leaves is the same
  for every order in which the workers complete.
\<close>

theorem combined_format_and_order:
  "(merged_pages w s e \<noteq> [] \<longrightarrow>
      combined_output (fst (combine_text_files w s e)) =
        Some (concat (map (\<lambda>n. ''\<newline>\<newline>==================== PAGE '' @ str_int n
                                 @ '' ====================\<newline>\<newline>''
                                 @ read_text (the (text_artifact w n)))
                       (merged_pages w s e)))
      \<and> sorted_wrt (<) (merged_pages w s e)
      \<and> set (merged_pages w s e) \<subseteq> {s..e})
   \<and> (completion_order c cfg \<and> completion_order c' cfg \<longrightarrow>
        combined_output (final (process_pdf E c cfg od calls))
          = combined_output (final (process_pdf E c' cfg od calls)))"
proof -
  have "set (merged_pages w s e) \<subseteq> {s..e}" by (auto simp: merged_pages_def)
  then show ?thesis
    using combined_output_order[of c cfg c' E od calls] merged_pages_ascending[of w s e]
    by (simp add: combine_text_files_eq page_header_def)
qed

theorem combined_format_and_order_witness:
  "merged_pages store_a 1 3 = [1, 3]
   \<and> combined_output (fst (combine_text_files store_a 1 3)) =
        Some (''\<newline>\<newline>==================== PAGE 1 ====================\<newline>\<newline>one''
              @ ''\<newline>\<newline>==================== PAGE 3 ====================\<newline>\<newline>three''
              @ ''\<newline>lines\<newline>end'')
   \<and> completion_order rev cfg_a \<and> completion_order (\<lambda>ps. ps) cfg_a
   \<and> combined_output (final (process_pdf env_b rev cfg_a no_outdir []))
        = combined_output (final (process_pdf env_b (\<lambda>ps. ps) cfg_a no_outdir []))"
proof -
  have mp: "merged_pages store_a 1 3 = [1, 3]" by code_simp
  have c1: "completion_order rev cfg_a" by (simp add: completion_order_def)
  have c2: "completion_order (\<lambda>ps. ps) cfg_a" by (simp add: completion_order_def)
  have t1: "read_text (the (text_artifact store_a 1)) = ''one''" by code_simp
  have t3: "read_text (the (text_artifact store_a 3)) = ''three\<newline>lines\<newline>end''" by code_simp
  have s1: "str_int 1 = ''1''" by code_simp
  have s3: "str_int 3 = ''3''" by code_simp
  show ?thesis
    using combined_format_and_order[of store_a 1 3 rev cfg_a "\<lambda>ps. ps" env_b no_outdir "[]"]
      c1 c2 by (simp add: mp t1 t3 s1 s3)
qed

text \<open>
  What the combiner does guarantee: a page marked with the sentinel is never merged, and
  the number of merged pages is the number of pages of the range whose text artifact
  exists and, as read, has no OCR FAILED in its first 50 characters.
\<close>

lemma sentinel_pages_not_merged:
  "text_artifact w i = Some c \<Longrightarrow> prefix FAILURE_SENTINEL c \<Longrightarrow> i \<notin> set (merged_pages w s e)"
  by (auto simp: merged_pages_def qualifies_def text_artifact_def sentinel_is_marked)

lemma merged_count:
  "length (merged_pages w s e) =
     length (filter (\<lambda>i. case text_artifact w i of None \<Rightarrow> False
                         | Some c \<Rightarrow> \<not> str_contains ''OCR FAILED'' (take 50 (read_text c))) [s..e])"
  by (simp add: merged_pages_def qualifies_def text_artifact_def)

text \<open>
  Claim C1 (combine correctness). The claim counts as merged every page of the range whose
  text artifact exists and does not begin with the failure sentinel. The test of
  \<open>combine_text_files\<close> is another one: it looks for the words OCR FAILED anywhere in
  the first 50 characters. A one-page document whose page is recognised as
  \<open>Chapter 9: When OCR FAILED\<close> is processed with success, its text artifact does not
  begin with the sentinel, and yet the combiner merges no page and writes no combined
  artifact.
\<close>

theorem combine_drops_unmarked_page:
  "success_count (process_pdf env_c (\<lambda>ps. ps) cfg_c no_outdir []) = 1
   \<and> failure_count (process_pdf env_c (\<lambda>ps. ps) cfg_c no_outdir []) = 0
   \<and> text_artifact (final (process_pdf env_c (\<lambda>ps. ps) cfg_c no_outdir [])) 1
        = Some ''Chapter 9: When OCR FAILED''
   \<and> \<not> prefix FAILURE_SENTINEL ''Chapter 9: When OCR FAILED''
   \<and> merged_pages (final (process_pdf env_c (\<lambda>ps. ps) cfg_c no_outdir [])) 1 1 = []
   \<and> combined_output (final (process_pdf env_c (\<lambda>ps. ps) cfg_c no_outdir [])) = None
   \<and> combiner_lines (process_pdf env_c (\<lambda>ps. ps) cfg_c no_outdir [])
        = [''\<newline>--- Combining Text Output (Pages 1-1) ---'',
           ''No successful text files found to combine in this range.'']"
  by code_simp

lemma map_succ_upto: "map (\<lambda>p. p + 1) [s - 1 .. e - 1] = [s .. e :: int]"
proof (rule nth_equalityI)
  show "length (map (\<lambda>p. p + 1) [s - 1 .. e - 1]) = length [s..e]" by simp
next
  fix k assume "k < length (map (\<lambda>p. p + 1) [s - 1 .. e - 1])"
  then have "s - 1 + int k \<le> e - 1" "s + int k \<le> e" by simp_all
  then show "map (\<lambda>p. p + 1) [s - 1 .. e - 1] ! k = [s..e] ! k" by simp
qed

lemma mkdirs_on_disk: "mkdirs (on_disk w) (engine_calls w) = w"
  by (simp add: mkdirs_def on_disk_def)

lemma task_failure_sentinel:
  assumes "\<not> succeeded (snd (process_page_task E path p m l w))"
  shows "\<exists>msg. snd (process_page_task E path p m l w) = Returned False (p + 1) (Some msg)
           \<and> text_artifact (fst (process_page_task E path p m l w)) (p + 1) = Some (FAILURE_SENTINEL @ msg)"
  using assms
  by (cases rule: task_cases[where w=w and p=p and E=E and path=path and m=m and l=l])
     (simp_all add: task_skip task_render_fails task_ocr_fails task_succeeds succeeded_def
        text_artifact_def map_of_write)

lemma tally_skips:
  "tally (map (\<lambda>p. Returned True (p + 1) None) ps) = (length ps, 0, [])"
proof -
  have "foldl collect (sc, fc, msgs) (map (\<lambda>p. Returned True (p + 1) None) ps) = (sc + length ps, fc, msgs)"
    for sc fc msgs
    by (induction ps arbitrary: sc) (simp_all add: collect_def)
  then show ?thesis by (simp add: tally_def)
qed

lemma combine_nothing:
  "merged_pages w s e = [] \<Longrightarrow> fst (combine_text_files w s e) = w"
  by (simp add: combine_text_files_eq)

lemma combine_artifacts:
  "render_artifact (fst (combine_text_files w s e)) i = render_artifact w i"
  "text_artifact (fst (combine_text_files w s e)) i = text_artifact w i"
  by (simp_all add: render_artifact_def text_artifact_def combine_frame)

lemma final_artifacts:
  assumes "tesseract_found E (tesseract_path cfg)"
  shows "render_artifact (final (process_pdf E c cfg od calls)) i = render_artifact (fst (tasks_of E c cfg od calls)) i"
    and "text_artifact (final (process_pdf E c cfg od calls)) i = text_artifact (fst (tasks_of E c cfg od calls)) i"
  by (simp_all add: process_pdf_found(1)[OF assms] combine_artifacts)

text \<open>When no task of a run succeeded, the combiner finds nothing in what the run left.\<close>

lemma all_failed_nothing_merged:
  assumes c: "completion_order c cfg"
    and zero: "fst (tally (snd (tasks_of E c cfg od calls))) = 0"
  shows "merged_pages (fst (tasks_of E c cfg od calls)) (start_page cfg) (end_page cfg) = []"
proof -
  let ?task = "\<lambda>p. process_page_task E (pdf_path cfg) p (Matrix (dpi cfg)) (languages cfg) (mkdirs od calls)"
  from zero have none: "\<forall>r\<in>set (snd (tasks_of E c cfg od calls)). \<not> succeeded r"
    unfolding tally_counts(1)[OF tasks_wellformed[OF c]] by (simp add: filter_empty_conv)
  have "i \<notin> set (merged_pages (fst (tasks_of E c cfg od calls)) (start_page cfg) (end_page cfg))"
    if i: "i \<in> {start_page cfg .. end_page cfg}" for i
  proof -
    from i have "i - 1 \<in> set (c [start_page cfg - 1 .. end_page cfg - 1])"
      unfolding perm_pages(2)[OF c] by simp
    then have "snd (?task (i - 1)) \<in> set (snd (tasks_of E c cfg od calls))"
      unfolding tasks_results[OF c] by simp
    with none have "\<not> succeeded (snd (?task (i - 1)))" by blast
    from task_failure_sentinel[OF this] obtain msg where
      "text_artifact (fst (?task (i - 1))) i = Some (FAILURE_SENTINEL @ msg)" by auto
    then have "text_artifact (fst (tasks_of E c cfg od calls)) i = Some (FAILURE_SENTINEL @ msg)"
      by (simp add: tasks_artifacts(2)[OF c i])
    then show ?thesis by (rule sentinel_pages_not_merged) simp
  qed
  then have "set (merged_pages (fst (tasks_of E c cfg od calls)) (start_page cfg) (end_page cfg)) = {}"
    by (auto simp: merged_pages_def)
  then show ?thesis by simp
qed

lemma second_run:
  assumes c: "completion_order c cfg" and c': "completion_order c' cfg"
    and full: "\<forall>i\<in>{start_page cfg .. end_page cfg}.
         render_artifact (final (process_pdf E c cfg od calls)) i \<noteq> None
       \<and> text_artifact (final (process_pdf E c cfg od calls)) i \<noteq> None"
  shows "final (process_pdf E c' cfg (on_disk (final (process_pdf E c cfg od calls)))
                  (engine_calls (final (process_pdf E c cfg od calls))))
           = final (process_pdf E c cfg od calls)"
    and "tesseract_found E (tesseract_path cfg) \<Longrightarrow>
         collected (process_pdf E c' cfg (on_disk (final (process_pdf E c cfg od calls)))
                  (engine_calls (final (process_pdf E c cfg od calls))))
           = map (\<lambda>p. Returned True (p + 1) None) (c' [start_page cfg - 1 .. end_page cfg - 1])"
    and "tesseract_found E (tesseract_path cfg) \<Longrightarrow>
         success_count (process_pdf E c' cfg (on_disk (final (process_pdf E c cfg od calls)))
                  (engine_calls (final (process_pdf E c cfg od calls))))
           = nat (end_page cfg - start_page cfg + 1)"
    and "failure_count (process_pdf E c' cfg (on_disk (final (process_pdf E c cfg od calls)))
                  (engine_calls (final (process_pdf E c cfg od calls)))) = 0"
proof -
  let ?w1 = "final (process_pdf E c cfg od calls)"
  let ?ps' = "c' [start_page cfg - 1 .. end_page cfg - 1]"
  let ?r2 = "process_pdf E c' cfg (on_disk ?w1) (engine_calls ?w1)"
  have "\<forall>p\<in>set ?ps'. render_artifact ?w1 (p + 1) \<noteq> None \<and> text_artifact ?w1 (p + 1) \<noteq> None"
    unfolding perm_pages(2)[OF c'] using full by auto
  then have run2: "tasks_of E c' cfg (on_disk ?w1) (engine_calls ?w1)
                     = (?w1, map (\<lambda>p. Returned True (p + 1) None) ?ps')"
    unfolding tasks_of_def mkdirs_on_disk by (rule run_all_skip)
  have len: "length ?ps' = nat (end_page cfg - start_page cfg + 1)"
  proof -
    have "length ?ps' = size (mset ?ps')" by simp
    also have "\<dots> = size (mset [start_page cfg - 1 .. end_page cfg - 1])"
      using c' by (simp only: completion_order_def)
    finally show ?thesis by simp
  qed
  show fin: "final ?r2 = ?w1"
  proof (cases "tesseract_found E (tesseract_path cfg)")
    case False
    then show ?thesis by (simp add: process_pdf_not_found mkdirs_on_disk)
  next
    case True
    have idem: "fst (combine_text_files ?w1 (start_page cfg) (end_page cfg)) = ?w1"
    proof (cases "0 < fst (tally (snd (tasks_of E c cfg od calls)))")
      case True
      with \<open>tesseract_found E (tesseract_path cfg)\<close> show ?thesis
        by (simp add: process_pdf_found(1) combine_idem)
    next
      case False
      then have z: "fst (tally (snd (tasks_of E c cfg od calls))) = 0" by simp
      have "?w1 = fst (tasks_of E c cfg od calls)"
        using \<open>tesseract_found E (tesseract_path cfg)\<close> z by (simp add: process_pdf_found(1))
      then show ?thesis
        using all_failed_nothing_merged[OF c z] by (simp add: combine_nothing)
    qed
    have "final ?r2 =
            (if 0 < fst (tally (snd (tasks_of E c' cfg (on_disk ?w1) (engine_calls ?w1))))
             then fst (combine_text_files (fst (tasks_of E c' cfg (on_disk ?w1) (engine_calls ?w1)))
                         (start_page cfg) (end_page cfg))
             else fst (tasks_of E c' cfg (on_disk ?w1) (engine_calls ?w1)))"
      by (rule process_pdf_found(1)[OF True])
    then show ?thesis by (simp add: run2 tally_skips idem)
  qed
  show "collected ?r2 = map (\<lambda>p. Returned True (p + 1) None) ?ps'"
    if "tesseract_found E (tesseract_path cfg)"
    unfolding process_pdf_found(4)[OF that, of c' "on_disk ?w1" "engine_calls ?w1"] by (simp add: run2)
  show "success_count ?r2 = nat (end_page cfg - start_page cfg + 1)"
    if "tesseract_found E (tesseract_path cfg)"
    unfolding process_pdf_found(2)[OF that, of c' "on_disk ?w1" "engine_calls ?w1"]
    by (simp add: run2 tally_skips len)
  show "failure_count ?r2 = 0"
  proof (cases "tesseract_found E (tesseract_path cfg)")
    case False
    then show ?thesis by (simp add: process_pdf_not_found)
  next
    case True
    show ?thesis
      unfolding process_pdf_found(3)[OF True, of c' "on_disk ?w1" "engine_calls ?w1"]
      by (simp add: run2 tally_skips)
  qed
qed

section \<open>Claims about the page task and the run\<close>

text \<open>
  Claim C2 (idempotent skip). A page whose render artifact and text artifact both exist
  is skipped: \<open>process_page_task\<close> returns success with the state it was given, so no
  engine is called and no file changes. Consequently, when a run has left every page of
  its range with both artifacts, a second run over the same range ends in the very same
  state (the same files with the same contents, the same log of engine calls), reports
  no failure, and counts every page of the range as a success.
\<close>

theorem idempotent_skip:
  "(render_artifact w (p + 1) \<noteq> None \<and> text_artifact w (p + 1) \<noteq> None \<longrightarrow>
      process_page_task E path p mat langs w = (w, Returned True (p + 1) None))
   \<and> (completion_order c cfg \<and> completion_order c' cfg
       \<and> (\<forall>i\<in>{start_page cfg .. end_page cfg}.
             render_artifact (final (process_pdf E c cfg od calls)) i \<noteq> None
           \<and> text_artifact (final (process_pdf E c cfg od calls)) i \<noteq> None)
      \<longrightarrow> final (process_pdf E c' cfg (on_disk (final (process_pdf E c cfg od calls)))
                   (engine_calls (final (process_pdf E c cfg od calls))))
            = final (process_pdf E c cfg od calls)
        \<and> failure_count (process_pdf E c' cfg (on_disk (final (process_pdf E c cfg od calls)))
                   (engine_calls (final (process_pdf E c cfg od calls)))) = 0
        \<and> (tesseract_found E (tesseract_path cfg) \<longrightarrow>
             success_count (process_pdf E c' cfg (on_disk (final (process_pdf E c cfg od calls)))
                   (engine_calls (final (process_pdf E c cfg od calls))))
               = nat (end_page cfg - start_page cfg + 1)
           \<and> collected (process_pdf E c' cfg (on_disk (final (process_pdf E c cfg od calls)))
                   (engine_calls (final (process_pdf E c cfg od calls))))
               = map (\<lambda>p. Returned True (p + 1) None) (c' [start_page cfg - 1 .. end_page cfg - 1])))"
proof (intro conjI impI)
  assume "render_artifact w (p + 1) \<noteq> None \<and> text_artifact w (p + 1) \<noteq> None"
  then show "process_page_task E path p mat langs w = (w, Returned True (p + 1) None)"
    by (simp add: task_skip)
next
  assume h: "completion_order c cfg \<and> completion_order c' cfg
       \<and> (\<forall>i\<in>{start_page cfg .. end_page cfg}.
             render_artifact (final (process_pdf E c cfg od calls)) i \<noteq> None
           \<and> text_artifact (final (process_pdf E c cfg od calls)) i \<noteq> None)"
  then have c: "completion_order c cfg" and c': "completion_order c' cfg"
    and full: "\<forall>i\<in>{start_page cfg .. end_page cfg}.
             render_artifact (final (process_pdf E c cfg od calls)) i \<noteq> None
           \<and> text_artifact (final (process_pdf E c cfg od calls)) i \<noteq> None"
    by simp_all
  show "final (process_pdf E c' cfg (on_disk (final (process_pdf E c cfg od calls)))
                   (engine_calls (final (process_pdf E c cfg od calls))))
            = final (process_pdf E c cfg od calls)"
    by (rule second_run(1)[OF c c' full])
  show "failure_count (process_pdf E c' cfg (on_disk (final (process_pdf E c cfg od calls)))
                   (engine_calls (final (process_pdf E c cfg od calls)))) = 0"
    by (rule second_run(4)[OF c c' full])
  assume t: "tesseract_found E (tesseract_path cfg)"
  show "success_count (process_pdf E c' cfg (on_disk (final (process_pdf E c cfg od calls)))
                   (engine_calls (final (process_pdf E c cfg od calls))))
               = nat (end_page cfg - start_page cfg + 1)"
    by (rule second_run(3)[OF c c' full t])
  show "collected (process_pdf E c' cfg (on_disk (final (process_pdf E c cfg od calls)))
                   (engine_calls (final (process_pdf E c cfg od calls))))
               = map (\<lambda>p. Returned True (p + 1) None) (c' [start_page cfg - 1 .. end_page cfg - 1])"
    by (rule second_run(2)[OF c c' full t])
qed

theorem idempotent_skip_witness:
  "render_artifact (final (process_pdf env_a rev cfg_a no_outdir [])) 1 = Some ''image 1''
   \<and> text_artifact (final (process_pdf env_a rev cfg_a no_outdir [])) 1 = Some ''text of image 1''
   \<and> process_page_task env_a ''doc.pdf'' 0 (Matrix 300) ''eng'' (final (process_pdf env_a rev cfg_a no_outdir []))
       = (final (process_pdf env_a rev cfg_a no_outdir []), Returned True 1 None)
   \<and> engine_calls (final (process_pdf env_a rev cfg_a no_outdir []))
       = [RenderCall 2, OcrCall 2, RenderCall 1, OcrCall 1, RenderCall 0, OcrCall 0]
   \<and> final (process_pdf env_a (\<lambda>ps. ps) cfg_a (on_disk (final (process_pdf env_a rev cfg_a no_outdir [])))
                   (engine_calls (final (process_pdf env_a rev cfg_a no_outdir []))))
       = final (process_pdf env_a rev cfg_a no_outdir [])
   \<and> success_count (process_pdf env_a (\<lambda>ps. ps) cfg_a (on_disk (final (process_pdf env_a rev cfg_a no_outdir [])))
                   (engine_calls (final (process_pdf env_a rev cfg_a no_outdir [])))) = 3
   \<and> failure_count (process_pdf env_a (\<lambda>ps. ps) cfg_a (on_disk (final (process_pdf env_a rev cfg_a no_outdir [])))
                   (engine_calls (final (process_pdf env_a rev cfg_a no_outdir [])))) = 0"
proof -
  let ?w1 = "final (process_pdf env_a rev cfg_a no_outdir [])"
  have r1: "render_artifact ?w1 1 = Some ''image 1''" by code_simp
  have r2: "render_artifact ?w1 2 \<noteq> None" by code_simp
  have r3: "render_artifact ?w1 3 \<noteq> None" by code_simp
  have t1: "text_artifact ?w1 1 = Some ''text of image 1''" by code_simp
  have t2: "text_artifact ?w1 2 \<noteq> None" by code_simp
  have t3: "text_artifact ?w1 3 \<noteq> None" by code_simp
  have calls: "engine_calls ?w1 = [RenderCall 2, OcrCall 2, RenderCall 1, OcrCall 1, RenderCall 0, OcrCall 0]"
    by code_simp
  have range: "{start_page cfg_a .. end_page cfg_a} = {1, 2, 3}" by (auto simp: cfg_a_def)
  have full: "\<forall>i\<in>{start_page cfg_a .. end_page cfg_a}.
                render_artifact ?w1 i \<noteq> None \<and> text_artifact ?w1 i \<noteq> None"
    unfolding range using r1 r2 r3 t1 t2 t3 by simp
  have c1: "completion_order rev cfg_a" by (simp add: completion_order_def)
  have c2: "completion_order (\<lambda>ps. ps) cfg_a" by (simp add: completion_order_def)
  have found: "tesseract_found env_a (tesseract_path cfg_a)" by (simp add: env_a_def)
  have n: "nat (end_page cfg_a - start_page cfg_a + 1) = 3" by (simp add: cfg_a_def)
  have pre: "render_artifact ?w1 (0 + 1) \<noteq> None \<and> text_artifact ?w1 (0 + 1) \<noteq> None"
    using r1 t1 by simp
  from idempotent_skip[where w = ?w1 and p = 0 and E = env_a and path = "''doc.pdf''" and mat = "Matrix 300"
      and langs = "''eng''" and c = rev and cfg = cfg_a and c' = "\<lambda>ps. ps" and od = no_outdir and calls = "[]"]
  show ?thesis
    using pre full c1 c2 found n r1 t1 calls by simp
qed

text \<open>
  Claim C3 (per-page failure handling), as the code has it. \<open>process_page_task\<close> always
  returns a triple and never raises. When the page is not skipped and rendering or
  recognition raises \<open>e\<close>, it returns failure with the message
  \<open>OCR failed: {errorKind}: {errorDetail}\<close> and writes a text artifact that is the
  sentinel \<open>OCR FAILED FOR THIS PAGE: \<close> followed by that message. The claim leaves out
  the words \<open>OCR failed: \<close> that stand between the sentinel and the error kind, and at
  the head of the returned message.
\<close>

theorem page_failure_handling:
  "(\<exists>ok i msg. snd (process_page_task E path p mat langs w) = Returned ok i msg)
   \<and> ((render_artifact w (p + 1) = None \<or> text_artifact w (p + 1) = None)
       \<and> (render_page E path p mat = Inl e
            \<or> (\<exists>pix. render_page E path p mat = Inr pix \<and> image_to_string E pix langs = Inl e))
      \<longrightarrow> snd (process_page_task E path p mat langs w)
            = Returned False (p + 1) (Some (''OCR failed: '' @ kind e @ '': '' @ detail e))
        \<and> text_artifact (fst (process_page_task E path p mat langs w)) (p + 1)
            = Some (''OCR FAILED FOR THIS PAGE: '' @ ''OCR failed: '' @ kind e @ '': '' @ detail e))"
proof (intro conjI impI)
  show "\<exists>ok i msg. snd (process_page_task E path p mat langs w) = Returned ok i msg"
    using task_returns[of E path p mat langs w] by auto
next
  assume h: "(render_artifact w (p + 1) = None \<or> text_artifact w (p + 1) = None)
       \<and> (render_page E path p mat = Inl e
            \<or> (\<exists>pix. render_page E path p mat = Inr pix \<and> image_to_string E pix langs = Inl e))"
  then have n: "render_artifact w (p + 1) = None \<or> text_artifact w (p + 1) = None" by simp
  from h have "render_page E path p mat = Inl e
            \<or> (\<exists>pix. render_page E path p mat = Inr pix \<and> image_to_string E pix langs = Inl e)" by simp
  then have "snd (process_page_task E path p mat langs w)
            = Returned False (p + 1) (Some (''OCR failed: '' @ kind e @ '': '' @ detail e))
        \<and> text_artifact (fst (process_page_task E path p mat langs w)) (p + 1)
            = Some (''OCR FAILED FOR THIS PAGE: '' @ ''OCR failed: '' @ kind e @ '': '' @ detail e)"
  proof
    assume "render_page E path p mat = Inl e"
    from task_render_fails[OF n this, of langs] show ?thesis
      by (simp add: text_artifact_def map_of_write FAILURE_SENTINEL_def)
  next
    assume "\<exists>pix. render_page E path p mat = Inr pix \<and> image_to_string E pix langs = Inl e"
    then obtain pix where "render_page E path p mat = Inr pix" "image_to_string E pix langs = Inl e"
      by auto
    from task_ocr_fails[OF n this] show ?thesis
      by (simp add: text_artifact_def map_of_write FAILURE_SENTINEL_def)
  qed
  then show "snd (process_page_task E path p mat langs w)
            = Returned False (p + 1) (Some (''OCR failed: '' @ kind e @ '': '' @ detail e))"
    and "text_artifact (fst (process_page_task E path p mat langs w)) (p + 1)
            = Some (''OCR FAILED FOR THIS PAGE: '' @ ''OCR failed: '' @ kind e @ '': '' @ detail e)"
    by simp_all
qed

theorem page_failure_handling_witness:
  "render_page env_b ''doc.pdf'' 1 (Matrix 300) = Inr ''image 2''
   \<and> image_to_string env_b ''image 2'' ''eng'' = Inl (PyError ''RuntimeError'' ''boom'')
   \<and> snd (process_page_task env_b ''doc.pdf'' 1 (Matrix 300) ''eng'' empty_world)
        = Returned False 2 (Some ''OCR failed: RuntimeError: boom'')
   \<and> text_artifact (fst (process_page_task env_b ''doc.pdf'' 1 (Matrix 300) ''eng'' empty_world)) 2
        = Some ''OCR FAILED FOR THIS PAGE: OCR failed: RuntimeError: boom''"
proof -
  have r: "render_page env_b ''doc.pdf'' 1 (Matrix 300) = Inr ''image 2''" by code_simp
  have o: "image_to_string env_b ''image 2'' ''eng'' = Inl (PyError ''RuntimeError'' ''boom'')" by code_simp
  have n: "render_artifact empty_world (1 + 1) = None" by code_simp
  from page_failure_handling[where E = env_b and path = "''doc.pdf''" and p = 1 and mat = "Matrix 300"
      and langs = "''eng''" and w = empty_world and e = "PyError ''RuntimeError'' ''boom''"]
  show ?thesis using r o n by simp
qed

theorem page_failure_message_counterexample:
  "image_to_string env_b ''image 2'' ''eng'' = Inl (PyError ''RuntimeError'' ''boom'')
   \<and> text_artifact (fst (process_page_task env_b ''doc.pdf'' 1 (Matrix 300) ''eng'' empty_world)) 2
        \<noteq> Some (''OCR FAILED FOR THIS PAGE: '' @ ''RuntimeError'' @ '': '' @ ''boom'')
   \<and> snd (process_page_task env_b ''doc.pdf'' 1 (Matrix 300) ''eng'' empty_world)
        \<noteq> Returned False 2 (Some (''RuntimeError'' @ '': '' @ ''boom''))"
  by code_simp

lemma task_attempts:
  assumes "render_artifact w (p + 1) = None \<or> text_artifact w (p + 1) = None"
  shows "\<exists>rest. engine_calls (fst (process_page_task E path p m l w)) = engine_calls w @ RenderCall p # rest"
  using assms
  by (cases rule: task_cases[where w=w and p=p and E=E and path=path and m=m and l=l])
     (simp_all add: task_render_fails task_ocr_fails task_succeeds)

text \<open>
  Claim C10 (render-failure retry), as the code has it. When the page has no render
  artifact and rendering raises, the task writes the sentinel text artifact and leaves
  the page without a render artifact, so that the next invocation, whatever the engines
  then do, calls the renderer for the page again. When rendering succeeds and recognition
  raises, both artifacts exist afterwards and the next invocation skips the page. The
  claim as stated also covers a page whose render artifact is left from an interrupted
  run: there a failed rendering leaves both artifacts and the page is skipped from then on.
\<close>

theorem render_failure_retry:
  "(render_artifact w (p + 1) = None \<and> render_page E path p mat = Inl e \<longrightarrow>
      snd (process_page_task E path p mat langs w)
        = Returned False (p + 1) (Some (''OCR failed: '' @ kind e @ '': '' @ detail e))
      \<and> text_artifact (fst (process_page_task E path p mat langs w)) (p + 1)
        = Some (FAILURE_SENTINEL @ ''OCR failed: '' @ kind e @ '': '' @ detail e)
      \<and> render_artifact (fst (process_page_task E path p mat langs w)) (p + 1) = None
      \<and> (\<exists>rest. engine_calls (fst (process_page_task E' path' p mat' langs'
                                     (fst (process_page_task E path p mat langs w))))
                  = engine_calls (fst (process_page_task E path p mat langs w)) @ RenderCall p # rest))
   \<and> ((render_artifact w (p + 1) = None \<or> text_artifact w (p + 1) = None)
       \<and> render_page E path p mat = Inr pix \<and> image_to_string E pix langs = Inl e \<longrightarrow>
      render_artifact (fst (process_page_task E path p mat langs w)) (p + 1) = Some pix
      \<and> text_artifact (fst (process_page_task E path p mat langs w)) (p + 1)
        = Some (FAILURE_SENTINEL @ ''OCR failed: '' @ kind e @ '': '' @ detail e)
      \<and> process_page_task E' path' p mat' langs' (fst (process_page_task E path p mat langs w))
        = (fst (process_page_task E path p mat langs w), Returned True (p + 1) None))"
proof (intro conjI impI)
  assume h: "render_artifact w (p + 1) = None \<and> render_page E path p mat = Inl e"
  then have n: "render_artifact w (p + 1) = None \<or> text_artifact w (p + 1) = None"
    and r: "render_page E path p mat = Inl e" and a: "render_artifact w (p + 1) = None" by simp_all
  note t = task_render_fails[OF n r, of langs]
  show "snd (process_page_task E path p mat langs w)
        = Returned False (p + 1) (Some (''OCR failed: '' @ kind e @ '': '' @ detail e))"
    by (simp add: t)
  show "text_artifact (fst (process_page_task E path p mat langs w)) (p + 1)
        = Some (FAILURE_SENTINEL @ ''OCR failed: '' @ kind e @ '': '' @ detail e)"
    by (simp add: t text_artifact_def map_of_write)
  show absent: "render_artifact (fst (process_page_task E path p mat langs w)) (p + 1) = None"
    using a by (simp add: t render_artifact_def)
  show "\<exists>rest. engine_calls (fst (process_page_task E' path' p mat' langs'
                                     (fst (process_page_task E path p mat langs w))))
                  = engine_calls (fst (process_page_task E path p mat langs w)) @ RenderCall p # rest"
    by (rule task_attempts) (simp add: absent)
next
  assume h: "(render_artifact w (p + 1) = None \<or> text_artifact w (p + 1) = None)
       \<and> render_page E path p mat = Inr pix \<and> image_to_string E pix langs = Inl e"
  then have n: "render_artifact w (p + 1) = None \<or> text_artifact w (p + 1) = None"
    and r: "render_page E path p mat = Inr pix" and o: "image_to_string E pix langs = Inl e"
    by simp_all
  note t = task_ocr_fails[OF n r o]
  show png: "render_artifact (fst (process_page_task E path p mat langs w)) (p + 1) = Some pix"
    by (simp add: t render_artifact_def map_of_write)
  show tx: "text_artifact (fst (process_page_task E path p mat langs w)) (p + 1)
        = Some (FAILURE_SENTINEL @ ''OCR failed: '' @ kind e @ '': '' @ detail e)"
    by (simp add: t text_artifact_def map_of_write)
  show "process_page_task E' path' p mat' langs' (fst (process_page_task E path p mat langs w))
        = (fst (process_page_task E path p mat langs w), Returned True (p + 1) None)"
    by (rule task_skip) (simp_all add: png tx)
qed

theorem render_failure_retry_witness:
  "render_artifact empty_world 3 = None
   \<and> render_page env_b ''doc.pdf'' 2 (Matrix 300) = Inl (PyError ''ValueError'' ''bad page'')
   \<and> text_artifact (fst (process_page_task env_b ''doc.pdf'' 2 (Matrix 300) ''eng'' empty_world)) 3
        = Some ''OCR FAILED FOR THIS PAGE: OCR failed: ValueError: bad page''
   \<and> render_artifact (fst (process_page_task env_b ''doc.pdf'' 2 (Matrix 300) ''eng'' empty_world)) 3 = None
   \<and> (\<exists>rest. engine_calls (fst (process_page_task env_a ''doc.pdf'' 2 (Matrix 300) ''eng''
                                  (fst (process_page_task env_b ''doc.pdf'' 2 (Matrix 300) ''eng'' empty_world))))
               = engine_calls (fst (process_page_task env_b ''doc.pdf'' 2 (Matrix 300) ''eng'' empty_world))
                   @ RenderCall 2 # rest)
   \<and> image_to_string env_b ''image 2'' ''eng'' = Inl (PyError ''RuntimeError'' ''boom'')
   \<and> render_artifact (fst (process_page_task env_b ''doc.pdf'' 1 (Matrix 300) ''eng'' empty_world)) 2
        = Some ''image 2''
   \<and> process_page_task env_a ''doc.pdf'' 1 (Matrix 300) ''eng''
        (fst (process_page_task env_b ''doc.pdf'' 1 (Matrix 300) ''eng'' empty_world))
        = (fst (process_page_task env_b ''doc.pdf'' 1 (Matrix 300) ''eng'' empty_world), Returned True 2 None)"
proof -
  have a3: "render_artifact empty_world (2 + 1) = None" by code_simp
  have a2: "render_artifact empty_world (1 + 1) = None" by code_simp
  have r3: "render_page env_b ''doc.pdf'' 2 (Matrix 300) = Inl (PyError ''ValueError'' ''bad page'')"
    by code_simp
  have r2: "render_page env_b ''doc.pdf'' 1 (Matrix 300) = Inr ''image 2''" by code_simp
  have o2: "image_to_string env_b ''image 2'' ''eng'' = Inl (PyError ''RuntimeError'' ''boom'')"
    by code_simp
  from render_failure_retry[where w = empty_world and p = 2 and E = env_b and path = "''doc.pdf''"
      and mat = "Matrix 300" and langs = "''eng''" and e = "PyError ''ValueError'' ''bad page''"
      and E' = env_a and path' = "''doc.pdf''" and mat' = "Matrix 300" and langs' = "''eng''"] a3 r3
  have first: "text_artifact (fst (process_page_task env_b ''doc.pdf'' 2 (Matrix 300) ''eng'' empty_world)) 3
        = Some ''OCR FAILED FOR THIS PAGE: OCR failed: ValueError: bad page''
   \<and> render_artifact (fst (process_page_task env_b ''doc.pdf'' 2 (Matrix 300) ''eng'' empty_world)) 3 = None
   \<and> (\<exists>rest. engine_calls (fst (process_page_task env_a ''doc.pdf'' 2 (Matrix 300) ''eng''
                                  (fst (process_page_task env_b ''doc.pdf'' 2 (Matrix 300) ''eng'' empty_world))))
               = engine_calls (fst (process_page_task env_b ''doc.pdf'' 2 (Matrix 300) ''eng'' empty_world))
                   @ RenderCall 2 # rest)"
    by (simp add: FAILURE_SENTINEL_def)
  from render_failure_retry[where w = empty_world and p = 1 and E = env_b and path = "''doc.pdf''"
      and mat = "Matrix 300" and langs = "''eng''" and e = "PyError ''RuntimeError'' ''boom''"
      and pix = "''image 2''"
      and E' = env_a and path' = "''doc.pdf''" and mat' = "Matrix 300" and langs' = "''eng''"] a2 r2 o2
  have second: "render_artifact (fst (process_page_task env_b ''doc.pdf'' 1 (Matrix 300) ''eng'' empty_world)) 2
        = Some ''image 2''
   \<and> process_page_task env_a ''doc.pdf'' 1 (Matrix 300) ''eng''
        (fst (process_page_task env_b ''doc.pdf'' 1 (Matrix 300) ''eng'' empty_world))
        = (fst (process_page_task env_b ''doc.pdf'' 1 (Matrix 300) ''eng'' empty_world), Returned True 2 None)"
    by simp
  from a3 r3 o2 first second show ?thesis by simp
qed

theorem stale_render_counterexample:
  "render_page env_r ''doc.pdf'' 0 (Matrix 300) = Inl (PyError ''FileDataError'' ''cannot open document'')
   \<and> snd (process_page_task env_r ''doc.pdf'' 0 (Matrix 300) ''eng'' store_stale)
        = Returned False 1 (Some ''OCR failed: FileDataError: cannot open document'')
   \<and> render_artifact (fst (process_page_task env_r ''doc.pdf'' 0 (Matrix 300) ''eng'' store_stale)) 1
        = Some ''old image''
   \<and> process_page_task env_a ''doc.pdf'' 0 (Matrix 300) ''eng''
        (fst (process_page_task env_r ''doc.pdf'' 0 (Matrix 300) ''eng'' store_stale))
        = (fst (process_page_task env_r ''doc.pdf'' 0 (Matrix 300) ''eng'' store_stale), Returned True 1 None)
   \<and> engine_calls (fst (process_page_task env_a ''doc.pdf'' 0 (Matrix 300) ''eng''
        (fst (process_page_task env_r ''doc.pdf'' 0 (Matrix 300) ''eng'' store_stale)))) = [RenderCall 0]"
  by code_simp

lemma task_render_exists:
  "render_artifact (fst (process_page_task E path p m l w)) (p + 1) \<noteq> None
   \<or> (\<exists>e. render_page E path p m = Inl e)"
  by (cases rule: task_cases[where w=w and p=p and E=E and path=path and m=m and l=l])
     (simp_all add: task_skip task_render_fails task_ocr_fails task_succeeds render_artifact_def map_of_write)

lemma task_success_render:
  "succeeded (snd (process_page_task E path p m l w)) \<Longrightarrow>
   render_artifact (fst (process_page_task E path p m l w)) (p + 1) \<noteq> None"
  by (cases rule: task_cases[where w=w and p=p and E=E and path=path and m=m and l=l])
     (simp_all add: task_skip task_render_fails task_ocr_fails task_succeeds render_artifact_def
        map_of_write succeeded_def)

lemma task_real_text:
  assumes "render_artifact w (p + 1) = None \<or> text_artifact w (p + 1) = None"
    and "render_page E path p m = Inr pix" and "image_to_string E pix l = Inr t"
  shows "text_artifact (fst (process_page_task E path p m l w)) (p + 1) = Some (py_strip t)"
    and "render_artifact (fst (process_page_task E path p m l w)) (p + 1) = Some pix"
  by (simp_all add: task_succeeds[OF assms] text_artifact_def render_artifact_def map_of_write)

text \<open>
  Claim C5 (completeness). After a run that reached the page tasks, every page index of
  the range has a text artifact, and it is of exactly one kind: either it begins with
  the failure sentinel or it does not. A render artifact exists unless the renderer
  raised for that page. A page whose task failed has a sentinel text artifact; a page
  whose task succeeded has a render artifact; and a page that was rendered and
  recognised in this run has the stripped recognised text as its text artifact.
\<close>

theorem run_completeness:
  assumes "tesseract_found E (tesseract_path cfg)" and "completion_order c cfg"
    and "i \<in> {start_page cfg .. end_page cfg}"
  shows "text_artifact (final (process_pdf E c cfg od calls)) i \<noteq> None
    \<and> (sentinel_text_artifact (final (process_pdf E c cfg od calls)) i
         \<longleftrightarrow> \<not> real_text_artifact (final (process_pdf E c cfg od calls)) i)
    \<and> (render_artifact (final (process_pdf E c cfg od calls)) i \<noteq> None
         \<or> (\<exists>e. render_page E (pdf_path cfg) (i - 1) (Matrix (dpi cfg)) = Inl e))
    \<and> (\<not> succeeded (snd (process_page_task E (pdf_path cfg) (i - 1) (Matrix (dpi cfg)) (languages cfg)
                            (mkdirs od calls)))
         \<longrightarrow> sentinel_text_artifact (final (process_pdf E c cfg od calls)) i)
    \<and> (succeeded (snd (process_page_task E (pdf_path cfg) (i - 1) (Matrix (dpi cfg)) (languages cfg)
                            (mkdirs od calls)))
         \<longrightarrow> render_artifact (final (process_pdf E c cfg od calls)) i \<noteq> None)
    \<and> (\<forall>pix t. (render_artifact (mkdirs od calls) i = None \<or> text_artifact (mkdirs od calls) i = None)
           \<and> render_page E (pdf_path cfg) (i - 1) (Matrix (dpi cfg)) = Inr pix
           \<and> image_to_string E pix (languages cfg) = Inr t
         \<longrightarrow> text_artifact (final (process_pdf E c cfg od calls)) i = Some (py_strip t)
           \<and> render_artifact (final (process_pdf E c cfg od calls)) i = Some pix)"
proof -
  let ?w0 = "mkdirs od calls"
  let ?t = "process_page_task E (pdf_path cfg) (i - 1) (Matrix (dpi cfg)) (languages cfg) ?w0"
  let ?f = "final (process_pdf E c cfg od calls)"
  have ra: "render_artifact ?f i = render_artifact (fst ?t) i"
    by (simp add: final_artifacts(1)[OF assms(1)] tasks_artifacts(1)[OF assms(2,3)])
  have ta: "text_artifact ?f i = text_artifact (fst ?t) i"
    by (simp add: final_artifacts(2)[OF assms(1)] tasks_artifacts(2)[OF assms(2,3)])
  have i: "i - 1 + 1 = i" by simp
  have 1: "text_artifact ?f i \<noteq> None"
    using task_text_exists[of E "pdf_path cfg" "i - 1" "Matrix (dpi cfg)" "languages cfg" ?w0]
    by (simp add: ta)
  then have 2: "sentinel_text_artifact ?f i \<longleftrightarrow> \<not> real_text_artifact ?f i"
    by (auto simp: sentinel_text_artifact_def real_text_artifact_def)
  have 3: "render_artifact ?f i \<noteq> None
         \<or> (\<exists>e. render_page E (pdf_path cfg) (i - 1) (Matrix (dpi cfg)) = Inl e)"
    using task_render_exists[of E "pdf_path cfg" "i - 1" "Matrix (dpi cfg)" "languages cfg" ?w0]
    by (simp add: ra)
  have 4: "sentinel_text_artifact ?f i" if "\<not> succeeded (snd ?t)"
    using task_failure_sentinel[OF that] by (auto simp: sentinel_text_artifact_def ta)
  have 5: "render_artifact ?f i \<noteq> None" if "succeeded (snd ?t)"
    using task_success_render[OF that] by (simp add: ra)
  have 6: "text_artifact ?f i = Some (py_strip t) \<and> render_artifact ?f i = Some pix"
    if "render_artifact ?w0 i = None \<or> text_artifact ?w0 i = None"
      "render_page E (pdf_path cfg) (i - 1) (Matrix (dpi cfg)) = Inr pix"
      "image_to_string E pix (languages cfg) = Inr t" for pix t
    using task_real_text[of ?w0 "i - 1" E "pdf_path cfg" "Matrix (dpi cfg)" pix "languages cfg" t] that
    by (simp add: ra ta)
  from 1 2 3 4 5 6 show ?thesis by blast
qed

theorem run_completeness_witness:
  "tesseract_found env_b (tesseract_path cfg_a) \<and> completion_order rev cfg_a
   \<and> text_artifact (final (process_pdf env_b rev cfg_a no_outdir [])) 1 = Some ''text of image 1''
   \<and> real_text_artifact (final (process_pdf env_b rev cfg_a no_outdir [])) 1
   \<and> render_artifact (final (process_pdf env_b rev cfg_a no_outdir [])) 1 = Some ''image 1''
   \<and> text_artifact (final (process_pdf env_b rev cfg_a no_outdir [])) 3
        = Some ''OCR FAILED FOR THIS PAGE: OCR failed: ValueError: bad page''
   \<and> sentinel_text_artifact (final (process_pdf env_b rev cfg_a no_outdir [])) 3
   \<and> \<not> real_text_artifact (final (process_pdf env_b rev cfg_a no_outdir [])) 3
   \<and> render_artifact (final (process_pdf env_b rev cfg_a no_outdir [])) 3 = None
   \<and> render_page env_b (pdf_path cfg_a) (3 - 1) (Matrix (dpi cfg_a)) = Inl (PyError ''ValueError'' ''bad page'')"
proof -
  have found: "tesseract_found env_b (tesseract_path cfg_a)" by (simp add: env_b_def)
  have c: "completion_order rev cfg_a" by (simp add: completion_order_def)
  have i1: "1 \<in> {start_page cfg_a .. end_page cfg_a}" by (simp add: cfg_a_def)
  have i3: "3 \<in> {start_page cfg_a .. end_page cfg_a}" by (simp add: cfg_a_def)
  have t1: "text_artifact (final (process_pdf env_b rev cfg_a no_outdir [])) 1 = Some ''text of image 1''"
    by code_simp
  have r1: "render_artifact (final (process_pdf env_b rev cfg_a no_outdir [])) 1 = Some ''image 1''"
    by code_simp
  have np1: "\<not> prefix FAILURE_SENTINEL ''text of image 1''" by (simp add: FAILURE_SENTINEL_def)
  have t3: "text_artifact (final (process_pdf env_b rev cfg_a no_outdir [])) 3
        = Some ''OCR FAILED FOR THIS PAGE: OCR failed: ValueError: bad page''"
    by code_simp
  have r3: "render_artifact (final (process_pdf env_b rev cfg_a no_outdir [])) 3 = None"
    by code_simp
  have e3: "render_page env_b (pdf_path cfg_a) (3 - 1) (Matrix (dpi cfg_a)) = Inl (PyError ''ValueError'' ''bad page'')"
    by code_simp
  have real1: "real_text_artifact (final (process_pdf env_b rev cfg_a no_outdir [])) 1"
    by (simp add: real_text_artifact_def t1 np1)
  from run_completeness[OF found c i1, of no_outdir "[]"] real1
  have "\<not> sentinel_text_artifact (final (process_pdf env_b rev cfg_a no_outdir [])) 1" by simp
  from run_completeness[OF found c i3, of no_outdir "[]"] r3
  have "sentinel_text_artifact (final (process_pdf env_b rev cfg_a no_outdir [])) 3
        \<and> \<not> real_text_artifact (final (process_pdf env_b rev cfg_a no_outdir [])) 3"
    by (simp add: sentinel_text_artifact_def t3 FAILURE_SENTINEL_def)
  with found c t1 real1 r1 t3 r3 e3 show ?thesis by simp
qed

lemma pages_pred_upto: "[s - 1 .. e - 1] = map (\<lambda>i. i - 1) [s .. e :: int]"
proof -
  have "map (\<lambda>i. i - 1) (map (\<lambda>p. p + 1) [s - 1 .. e - 1]) = map (\<lambda>i. i - 1) [s .. e]"
    by (simp only: map_succ_upto)
  then show ?thesis by (simp add: comp_def)
qed

lemma task_page_of: "page_of (snd (process_page_task E path p m l w)) = p + 1"
  using task_returns[of E path p m l w] by (auto simp: page_of_def)

lemma length_filter_mono:
  "(\<And>x. x \<in> set xs \<Longrightarrow> P x \<Longrightarrow> Q x) \<Longrightarrow> length (filter P xs) \<le> length (filter Q xs)"
  by (induction xs) auto

text \<open>
  Claim C8 (run accounting). In a run that reached the page tasks, the results collected
  are, in completion order, what each page's task returns on the store the run started
  from: the result of one page does not depend on what happened to another. There is
  exactly one result per page index of the range, each a returned triple; the two
  counters add up to \<open>end - start + 1\<close>; and \<open>success_count\<close> counts every page whose
  task returned success, the pages that were already complete and skipped among them.
\<close>

theorem run_accounting:
  assumes "tesseract_found E (tesseract_path cfg)" and "completion_order c cfg"
  shows "collected (process_pdf E c cfg od calls)
           = map (\<lambda>p. snd (process_page_task E (pdf_path cfg) p (Matrix (dpi cfg)) (languages cfg)
                              (mkdirs od calls)))
               (c [start_page cfg - 1 .. end_page cfg - 1])
    \<and> mset (map page_of (collected (process_pdf E c cfg od calls)))
           = mset [start_page cfg .. end_page cfg]
    \<and> (\<forall>r\<in>set (collected (process_pdf E c cfg od calls)). \<exists>ok i msg. r = Returned ok i msg)
    \<and> success_count (process_pdf E c cfg od calls) + failure_count (process_pdf E c cfg od calls)
           = nat (end_page cfg - start_page cfg + 1)
    \<and> (start_page cfg \<le> end_page cfg + 1 \<longrightarrow>
         int (success_count (process_pdf E c cfg od calls) + failure_count (process_pdf E c cfg od calls))
           = end_page cfg - start_page cfg + 1)
    \<and> success_count (process_pdf E c cfg od calls)
           = length (filter (\<lambda>i. succeeded (snd (process_page_task E (pdf_path cfg) (i - 1)
                                                  (Matrix (dpi cfg)) (languages cfg) (mkdirs od calls))))
                       [start_page cfg .. end_page cfg])
    \<and> length (filter (\<lambda>i. render_artifact (mkdirs od calls) i \<noteq> None
                          \<and> text_artifact (mkdirs od calls) i \<noteq> None)
                 [start_page cfg .. end_page cfg])
           \<le> success_count (process_pdf E c cfg od calls)"
proof -
  let ?w0 = "mkdirs od calls"
  let ?f = "\<lambda>p. snd (process_page_task E (pdf_path cfg) p (Matrix (dpi cfg)) (languages cfg) ?w0)"
  let ?ps = "[start_page cfg - 1 .. end_page cfg - 1]"
  let ?r = "process_pdf E c cfg od calls"
  from assms(2) have perm: "mset (c ?ps) = mset ?ps" by (simp add: completion_order_def)
  have col: "collected ?r = map ?f (c ?ps)"
    by (simp add: process_pdf_found(4)[OF assms(1)] tasks_results[OF assms(2)])
  have "map page_of (collected ?r) = map (\<lambda>p. p + 1) (c ?ps)"
    by (simp add: col task_page_of)
  then have "mset (map page_of (collected ?r)) = image_mset (\<lambda>p. p + 1) (mset (c ?ps))" by simp
  also have "\<dots> = mset (map (\<lambda>p. p + 1) ?ps)" by (simp add: perm)
  finally have pages: "mset (map page_of (collected ?r)) = mset [start_page cfg .. end_page cfg]"
    by (simp only: map_succ_upto)
  have wf: "\<forall>r\<in>set (collected ?r).
           r = Returned True (page_of r) None \<or> (\<exists>msg. r = Returned False (page_of r) (Some msg))"
    using tasks_wellformed[OF assms(2), of E od calls] by (simp add: process_pdf_found(4)[OF assms(1)])
  then have ret: "\<forall>r\<in>set (collected ?r). \<exists>ok i msg. r = Returned ok i msg" by blast
  have len: "length (collected ?r) = nat (end_page cfg - start_page cfg + 1)"
  proof -
    have "length (collected ?r) = size (mset (c ?ps))" by (simp add: col)
    then show ?thesis by (simp add: perm)
  qed
  have sc: "success_count ?r = length (filter succeeded (collected ?r))"
    and fc: "failure_count ?r = length (filter (\<lambda>r. \<not> succeeded r) (collected ?r))"
    using tally_counts[OF wf]
    by (simp_all add: process_pdf_found(2,3,4)[OF assms(1)])
  have total: "success_count ?r + failure_count ?r = nat (end_page cfg - start_page cfg + 1)"
    unfolding sc fc sum_length_filter_compl by (rule len)
  have "length (filter succeeded (collected ?r)) = size (filter_mset succeeded (image_mset ?f (mset (c ?ps))))"
    unfolding col by (simp flip: mset_filter mset_map)
  also have "\<dots> = length (filter succeeded (map ?f ?ps))"
    unfolding perm by (simp flip: mset_filter mset_map)
  also have "\<dots> = length (filter (\<lambda>i. succeeded (?f (i - 1))) [start_page cfg .. end_page cfg])"
    unfolding pages_pred_upto by (simp add: filter_map comp_def)
  finally have per_page: "success_count ?r
       = length (filter (\<lambda>i. succeeded (?f (i - 1))) [start_page cfg .. end_page cfg])"
    by (simp add: sc)
  have skipped: "length (filter (\<lambda>i. render_artifact ?w0 i \<noteq> None \<and> text_artifact ?w0 i \<noteq> None)
                 [start_page cfg .. end_page cfg]) \<le> success_count ?r"
    unfolding per_page
  proof (rule length_filter_mono)
    fix i assume "render_artifact ?w0 i \<noteq> None \<and> text_artifact ?w0 i \<noteq> None"
    then have "render_artifact ?w0 (i - 1 + 1) \<noteq> None" "text_artifact ?w0 (i - 1 + 1) \<noteq> None"
      by simp_all
    from task_skip[OF this] show "succeeded (?f (i - 1))" by (simp add: succeeded_def)
  qed
  from total have "int (success_count ?r + failure_count ?r) = end_page cfg - start_page cfg + 1"
    if "start_page cfg \<le> end_page cfg + 1" using that by simp
  with col pages ret total per_page skipped show ?thesis by blast
qed

theorem run_accounting_witness:
  "tesseract_found env_b (tesseract_path cfg_a) \<and> completion_order rev cfg_a
   \<and> collected (process_pdf env_b rev cfg_a (on_disk store_one) [])
        = [Returned False 3 (Some ''OCR failed: ValueError: bad page''),
           Returned False 2 (Some ''OCR failed: RuntimeError: boom''),
           Returned True 1 None]
   \<and> success_count (process_pdf env_b rev cfg_a (on_disk store_one) []) = 1
   \<and> failure_count (process_pdf env_b rev cfg_a (on_disk store_one) []) = 2
   \<and> success_count (process_pdf env_b rev cfg_a (on_disk store_one) [])
       + failure_count (process_pdf env_b rev cfg_a (on_disk store_one) [])
       = nat (end_page cfg_a - start_page cfg_a + 1)
   \<and> engine_calls (final (process_pdf env_b rev cfg_a (on_disk store_one) []))
       = [RenderCall 2, RenderCall 1, OcrCall 1]"
proof -
  have found: "tesseract_found env_b (tesseract_path cfg_a)" by (simp add: env_b_def)
  have c: "completion_order rev cfg_a" by (simp add: completion_order_def)
  have col: "collected (process_pdf env_b rev cfg_a (on_disk store_one) [])
        = [Returned False 3 (Some ''OCR failed: ValueError: bad page''),
           Returned False 2 (Some ''OCR failed: RuntimeError: boom''),
           Returned True 1 None]"
    by code_simp
  have sc: "success_count (process_pdf env_b rev cfg_a (on_disk store_one) []) = 1" by code_simp
  have fc: "failure_count (process_pdf env_b rev cfg_a (on_disk store_one) []) = 2" by code_simp
  have calls: "engine_calls (final (process_pdf env_b rev cfg_a (on_disk store_one) []))
       = [RenderCall 2, RenderCall 1, OcrCall 1]"
    by code_simp
  from run_accounting[OF found c, of "on_disk store_one" "[]"]
  have "success_count (process_pdf env_b rev cfg_a (on_disk store_one) [])
       + failure_count (process_pdf env_b rev cfg_a (on_disk store_one) [])
       = nat (end_page cfg_a - start_page cfg_a + 1)"
    by blast
  with found c col sc fc calls show ?thesis by simp
qed

lemma fmt04_isdigit: "0 \<le> n \<Longrightarrow> str_isdigit (fmt04 n)"
proof -
  assume "0 \<le> n"
  then have "fmt04 n = zfill 4 (dec (nat n))" by (simp add: fmt04_def)
  moreover have "list_all is_ascii_digit (zfill 4 (dec (nat n)))"
    by (intro zfill_digits dec_digits)
  ultimately show ?thesis
    by (auto simp: str_isdigit_def fmt04_nonempty list_all_iff is_digit_char_def)
qed

lemma val_fmt04: "0 \<le> n \<Longrightarrow> int (val (fmt04 n)) = n"
  by (simp add: fmt04_def val_zfill val_dec)

lemma scan_entries_padded:
  assumes "\<forall>f\<in>set fs. path_suffix f = ''.png'' \<and> str_isdigit (path_stem f)
              \<longrightarrow> path_stem f = fmt04 (int (val (path_stem f)))"
  shows "scan_entries t fs =
     Inr (map (\<lambda>f. int (val (path_stem f)))
            (filter (\<lambda>f. path_suffix f = ''.png'' \<and> str_isdigit (path_stem f)
                          \<and> file_exists t (path_stem f @ ''.txt'')) fs))"
  using assms
proof (induction fs)
  case Nil
  show ?case by simp
next
  case (Cons f fs)
  then have ih: "scan_entries t fs =
     Inr (map (\<lambda>f. int (val (path_stem f)))
            (filter (\<lambda>f. path_suffix f = ''.png'' \<and> str_isdigit (path_stem f)
                          \<and> file_exists t (path_stem f @ ''.txt'')) fs))"
    by simp
  show ?case
  proof (cases "path_suffix f = ''.png'' \<and> str_isdigit (path_stem f)")
    case True
    with Cons.prems have "path_stem f = fmt04 (int (val (path_stem f)))" by simp
    then have "py_int (path_stem f) = Some (int (val (path_stem f)))"
      using py_int_fmt04[of "int (val (path_stem f))"] by simp
    with True ih show ?thesis by simp
  next
    case False
    with ih show ?thesis by auto
  qed
qed

lemma scanned_pages:
  assumes pad: "zero_padded_names p"
  shows "n \<in> set (map (\<lambda>f. int (val (path_stem f)))
            (filter (\<lambda>f. path_suffix f = ''.png'' \<and> str_isdigit (path_stem f)
                          \<and> file_exists t (path_stem f @ ''.txt'')) (map fst p)))
         \<longleftrightarrow> 0 \<le> n \<and> map_of p (fmt04 n @ ''.png'') \<noteq> None \<and> map_of t (fmt04 n @ ''.txt'') \<noteq> None"
proof
  assume "n \<in> set (map (\<lambda>f. int (val (path_stem f)))
            (filter (\<lambda>f. path_suffix f = ''.png'' \<and> str_isdigit (path_stem f)
                          \<and> file_exists t (path_stem f @ ''.txt'')) (map fst p)))"
  then obtain f where f: "f \<in> fst ` set p" "path_suffix f = ''.png''" "str_isdigit (path_stem f)"
    "file_exists t (path_stem f @ ''.txt'')" and n: "n = int (val (path_stem f))"
    by auto
  from pad f have stem: "path_stem f = fmt04 n"
    by (auto simp: zero_padded_names_def list_all_iff n)
  have "f = path_stem f @ path_suffix f" by (simp add: stem_suffix_join)
  with stem f(2) have name: "f = fmt04 n @ ''.png''" by simp
  from f(1) have "map_of p f \<noteq> None" by (simp add: map_of_eq_None_iff)
  then have png: "map_of p (fmt04 n @ ''.png'') \<noteq> None" by (subst name[symmetric])
  from f(4) have "file_exists t (fmt04 n @ ''.txt'')" by (subst stem[symmetric])
  then have tx: "map_of t (fmt04 n @ ''.txt'') \<noteq> None" unfolding file_exists_def .
  have "0 \<le> n" by (subst n) simp
  with png tx show "0 \<le> n \<and> map_of p (fmt04 n @ ''.png'') \<noteq> None \<and> map_of t (fmt04 n @ ''.txt'') \<noteq> None"
    by blast
next
  assume h: "0 \<le> n \<and> map_of p (fmt04 n @ ''.png'') \<noteq> None \<and> map_of t (fmt04 n @ ''.txt'') \<noteq> None"
  let ?f = "fmt04 n @ ''.png''"
  from h have "?f \<in> fst ` set p" by (simp add: map_of_eq_None_iff)
  moreover have "path_suffix ?f = ''.png''" by (rule path_suffix_png)
  moreover have "str_isdigit (path_stem ?f)" using h by (simp add: path_stem_png fmt04_isdigit)
  moreover have "file_exists t (path_stem ?f @ ''.txt'')" using h by (simp add: path_stem_png file_exists_def)
  moreover have "int (val (path_stem ?f)) = n" using h by (simp add: path_stem_png val_fmt04)
  ultimately show "n \<in> set (map (\<lambda>f. int (val (path_stem f)))
            (filter (\<lambda>f. path_suffix f = ''.png'' \<and> str_isdigit (path_stem f)
                          \<and> file_exists t (path_stem f @ ''.txt'')) (map fst p)))"
    by force
qed

section \<open>Claims about the progress scanner and the command line\<close>

text \<open>
  Claim C6 (progress scanner), as the code has it. When either collection is absent,
  \<open>get_last_processed_page\<close> returns 0. On a store whose render collection follows the
  addressing scheme (numbered entries are zero-padded indices), it returns a number
  \<open>r \<ge> 0\<close> such that every page index with both artifacts is at most \<open>r\<close>, and \<open>r\<close> is 0
  or itself has both artifacts: the maximum complete index, 0 when there is none. It is
  the maximum and not the end of the contiguous prefix: with pages 1, 2 and 5 complete
  and 3, 4 incomplete it returns 5. The claim speaks of every state of the store; the
  scanner reads \<open>int(stem)\<close> of every entry named by digits, so a store that also holds
  \<open>7.png\<close> and \<open>7.txt\<close> makes it return 7 although no page index of that store has a
  render artifact.
\<close>

theorem last_processed_page:
  "(png_dir od = None \<or> txt_dir od = None \<longrightarrow> get_last_processed_page od = Inr 0)
   \<and> (\<forall>p t. png_dir od = Some p \<and> txt_dir od = Some t \<and> zero_padded_names p \<longrightarrow>
        (\<exists>r. get_last_processed_page od = Inr r \<and> 0 \<le> r
            \<and> (\<forall>n. render_artifact (mkdirs od []) n \<noteq> None \<and> text_artifact (mkdirs od []) n \<noteq> None
                   \<longrightarrow> n \<le> r)
            \<and> (r = 0 \<or> (render_artifact (mkdirs od []) r \<noteq> None
                          \<and> text_artifact (mkdirs od []) r \<noteq> None))))"
proof (intro conjI impI allI)
  assume "png_dir od = None \<or> txt_dir od = None"
  then show "get_last_processed_page od = Inr 0"
    by (auto simp: get_last_processed_page_def split: option.splits)
next
  fix p t
  assume h: "png_dir od = Some p \<and> txt_dir od = Some t \<and> zero_padded_names p"
  then have p: "png_dir od = Some p" and t: "txt_dir od = Some t" and pad: "zero_padded_names p"
    by simp_all
  define ns where "ns = map (\<lambda>f. int (val (path_stem f)))
            (filter (\<lambda>f. path_suffix f = ''.png'' \<and> str_isdigit (path_stem f)
                          \<and> file_exists t (path_stem f @ ''.txt'')) (map fst p))"
  have scan: "scan_entries t (map fst p) = Inr ns"
    unfolding ns_def using pad
    by (intro scan_entries_padded) (simp add: zero_padded_names_def list_all_iff)
  have mem: "n \<in> set ns \<longleftrightarrow>
      0 \<le> n \<and> render_artifact (mkdirs od []) n \<noteq> None \<and> text_artifact (mkdirs od []) n \<noteq> None" for n
    unfolding ns_def scanned_pages[OF pad]
    by (simp add: render_artifact_def text_artifact_def mkdirs_def p t)
  define r where "r = (if ns = [] then 0 else Max (set ns))"
  have res: "get_last_processed_page od = Inr r"
    by (simp add: get_last_processed_page_def p t scan r_def)
  have nonneg: "0 \<le> r"
  proof (cases "ns = []")
    case True
    then show ?thesis by (simp add: r_def)
  next
    case False
    then have "Max (set ns) \<in> set ns" by (intro Max_in) simp_all
    with mem False show ?thesis by (simp add: r_def)
  qed
  have upper: "n \<le> r"
    if "render_artifact (mkdirs od []) n \<noteq> None \<and> text_artifact (mkdirs od []) n \<noteq> None" for n
  proof (cases "0 \<le> n")
    case True
    with that mem have "n \<in> set ns" by simp
    then have "ns \<noteq> []" "n \<le> Max (set ns)" by auto
    then show ?thesis by (simp add: r_def)
  next
    case False
    with nonneg show ?thesis by simp
  qed
  have attained: "r = 0 \<or> (render_artifact (mkdirs od []) r \<noteq> None
                          \<and> text_artifact (mkdirs od []) r \<noteq> None)"
  proof (cases "ns = []")
    case True
    then show ?thesis by (simp add: r_def)
  next
    case False
    then have "Max (set ns) \<in> set ns" by (intro Max_in) simp_all
    with mem False show ?thesis by (simp add: r_def)
  qed
  from res nonneg upper attained
  show "\<exists>r. get_last_processed_page od = Inr r \<and> 0 \<le> r
            \<and> (\<forall>n. render_artifact (mkdirs od []) n \<noteq> None \<and> text_artifact (mkdirs od []) n \<noteq> None
                   \<longrightarrow> n \<le> r)
            \<and> (r = 0 \<or> (render_artifact (mkdirs od []) r \<noteq> None
                          \<and> text_artifact (mkdirs od []) r \<noteq> None))"
    by blast
qed

text \<open>
  The scanner on the store with a gap, and on a store with an entry whose stem
  \<open>isdigit()\<close> accepts and \<open>int()\<close> does not: there the scan ends with the \<open>ValueError\<close>.
\<close>

lemma gap_scan: "get_last_processed_page od_gap = Inr 5"
  by code_simp

lemma superscript_scan:
  "get_last_processed_page od_superscript = Inl (value_error [CHR 0xB2])"
  by code_simp

theorem last_processed_page_witness:
  "zero_padded_names [(''0005.png'', ''e''), (''0001.png'', ''a''), (''0003.png'', ''c''), (''0002.png'', ''b'')]
   \<and> get_last_processed_page od_gap = Inr 5
   \<and> render_artifact (mkdirs od_gap []) 5 \<noteq> None \<and> text_artifact (mkdirs od_gap []) 5 \<noteq> None
   \<and> render_artifact (mkdirs od_gap []) 3 \<noteq> None \<and> text_artifact (mkdirs od_gap []) 3 = None
   \<and> render_artifact (mkdirs od_gap []) 4 = None \<and> text_artifact (mkdirs od_gap []) 4 = None
   \<and> png_dir no_outdir = None
   \<and> get_last_processed_page no_outdir = Inr 0"
proof -
  let ?p = "[(''0005.png'', ''e''), (''0001.png'', ''a''), (''0003.png'', ''c''), (''0002.png'', ''b'')]"
  let ?t = "[(''0001.txt'', ''one''), (''0002.txt'', ''two''), (''0005.txt'', ''five'')]"
  have pad: "zero_padded_names ?p" by code_simp
  have p: "png_dir od_gap = Some ?p" and t: "txt_dir od_gap = Some ?t" by (simp_all add: od_gap_def)
  from last_processed_page[of od_gap] p t pad
  obtain r where r: "get_last_processed_page od_gap = Inr r"
    and at: "r = 0 \<or> (render_artifact (mkdirs od_gap []) r \<noteq> None
                          \<and> text_artifact (mkdirs od_gap []) r \<noteq> None)"
    by blast
  from r gap_scan have "r = 5" by simp
  with at have five: "render_artifact (mkdirs od_gap []) 5 \<noteq> None \<and> text_artifact (mkdirs od_gap []) 5 \<noteq> None"
    by simp
  have three: "render_artifact (mkdirs od_gap []) 3 \<noteq> None \<and> text_artifact (mkdirs od_gap []) 3 = None"
    by code_simp
  have four: "render_artifact (mkdirs od_gap []) 4 = None \<and> text_artifact (mkdirs od_gap []) 4 = None"
    by code_simp
  have absent: "png_dir no_outdir = None" by (simp add: no_outdir_def)
  with last_processed_page[of no_outdir] have zero: "get_last_processed_page no_outdir = Inr 0"
    by blast
  from pad gap_scan five three four absent zero show ?thesis by simp
qed

lemma fmt04_length: "4 \<le> length (fmt04 n)"
  by (auto simp: fmt04_def zfill_def)

theorem unpadded_scan_counterexample:
  "get_last_processed_page od_unpadded = Inr 7
   \<and> (\<forall>n. render_artifact (mkdirs od_unpadded []) n = None)"
proof -
  have scan: "get_last_processed_page od_unpadded = Inr 7" by code_simp
  have "render_artifact (mkdirs od_unpadded []) n = None" for n
  proof -
    have "length (fmt04 n @ ''.png'') \<noteq> length ''7.png''"
      using fmt04_length[of n] by simp
    then have "fmt04 n @ ''.png'' \<noteq> ''7.png''" by metis
    then show ?thesis by (simp add: render_artifact_def mkdirs_def od_unpadded_def)
  qed
  with scan show ?thesis by simp
qed

text \<open>The exits of \<open>setup_and_run\<close>.\<close>

lemma exit_missing_source:
  "\<not> pdf_exists E (arg_pdf_path a) \<Longrightarrow> setup_and_run E c a typed od calls = (1, None)"
  by (simp add: setup_and_run_def)

lemma exit_unreadable:
  "pdf_exists E (arg_pdf_path a) \<Longrightarrow> page_count E (arg_pdf_path a) = Inl e \<Longrightarrow>
   setup_and_run E c a typed od calls = (1, None)"
  by (simp add: setup_and_run_def)

lemma exit_after_run:
  "snd (setup_and_run E c a typed od calls) = Some r \<Longrightarrow> fst (setup_and_run E c a typed od calls) = 0"
  by (auto simp: setup_and_run_def split: if_splits sum.splits selection.splits)

lemma no_processing_without_tesseract:
  "\<not> tesseract_found E (arg_tesseract_path a) \<Longrightarrow> snd (setup_and_run E c a typed od calls) = Some r \<Longrightarrow>
   final r = mkdirs od calls \<and> collected r = []"
  by (auto simp: setup_and_run_def process_pdf_not_found split: if_splits sum.splits selection.splits)

text \<open>
  Claim C4 (exit codes). A missing source file and an unreadable document end the process
  with code 1 before any page is processed, and a quit or a completed run end it with
  code 0 (the lemmas above and below). The third setup error does not: when the
  Tesseract executable is not found, \<open>process_pdf\<close> prints its critical error and returns,
  \<open>setup_and_run\<close> falls off its end, and the process exits with code 0, not 1. No page
  is processed in that case.
\<close>

theorem tesseract_missing_exit_code:
  "pdf_exists env_t (arg_pdf_path args_a)
   \<and> page_count env_t (arg_pdf_path args_a) = Inr 3
   \<and> \<not> tesseract_found env_t (arg_tesseract_path args_a)
   \<and> setup_and_run env_t (\<lambda>ps. ps) args_a [''a''] no_outdir [] =
       (0, Some \<lparr>final = empty_world, success_count = 0, failure_count = 0, failure_messages = [],
                 combiner_lines = [], collected = []\<rparr>)"
  by code_simp

lemma quit_exit_code: "setup_and_run env_a (\<lambda>ps. ps) args_a [''  Q ''] no_outdir [] = (0, None)"
  by code_simp

lemma range_run_exit_code:
  "fst (setup_and_run env_b rev args_a [''x'', ''n'', ''4-5'', ''2 - 3''] no_outdir []) = 0
   \<and> map_option collected (snd (setup_and_run env_b rev args_a [''x'', ''n'', ''4-5'', ''2 - 3''] no_outdir []))
       = Some [Returned False 3 (Some ''OCR failed: ValueError: bad page''),
               Returned False 2 (Some ''OCR failed: RuntimeError: boom'')]"
  by code_simp

end
